theory Spec2Isabelle
  imports Complex_Main
begin

section \<open>Strings\<close>

text \<open>
  Python strings are modelled as HOL strings, a character being the code point of that
  number; the code points from 256 on have no counterpart here. The three string
  primitives the backend uses on currency codes are \<^verbatim>\<open>str.upper\<close>, \<^verbatim>\<open>str.strip\<close>
  and \<^verbatim>\<open>str.split(',')\<close>.

  \<open>is_space\<close> holds of the characters for which \<^verbatim>\<open>str.isspace\<close> is true, the ones
  \<^verbatim>\<open>str.strip\<close> removes: the ASCII white space, U+0085 and U+00A0.

  \<open>upper_char\<close> is \<^verbatim>\<open>str.upper\<close> on one character: \<open>a\<close>..\<open>z\<close> and the
  Latin-1 letters U+00E0..U+00FE (but the division sign U+00F7) move down by 32, U+00DF
  becomes \<^verbatim>\<open>SS\<close>, and every other character stays. Python maps two characters of
  this range out of it, U+00B5 to U+039C and U+00FF to U+0178; they stay here, and
  \<open>in_range\<close> holds of the strings without them, on which \<open>upper\<close> is
  \<^verbatim>\<open>str.upper\<close>.
\<close>

definition upper_char :: "char \<Rightarrow> string" where
  "upper_char c =
     (let n = (of_char c :: nat)
      in if (97 \<le> n \<and> n \<le> 122) \<or> (224 \<le> n \<and> n \<le> 254 \<and> n \<noteq> 247)
         then [char_of (n - 32)]
         else if n = 223 then ''SS''
         else [c])"

definition upper :: "string \<Rightarrow> string" where
  "upper s = concat (map upper_char s)"


definition is_space :: "char \<Rightarrow> bool" where
  "is_space c = ((of_char c :: nat) \<in> {9, 10, 11, 12, 13, 28, 29, 30, 31, 32, 133, 160})"

definition strip :: "string \<Rightarrow> string" where
  "strip s = rev (dropWhile is_space (rev (dropWhile is_space s)))"

text \<open>\<^verbatim>\<open>s.split(sep)\<close>: never the empty list; \<^verbatim>\<open>''.split(',') == ['']\<close>.\<close>

fun split_on :: "char \<Rightarrow> string \<Rightarrow> string list" where
  "split_on sep [] = [[]]"
| "split_on sep (c # cs) =
     (if c = sep then [] # split_on sep cs
      else (case split_on sep cs of [] \<Rightarrow> [[c]] | w # ws \<Rightarrow> (c # w) # ws))"

text \<open>\<^verbatim>\<open>','.join(xs)\<close>.\<close>

fun join_comma :: "string list \<Rightarrow> string" where
  "join_comma [] = []"
| "join_comma [x] = x"
| "join_comma (x # y # ys) = x @ CHR '','' # join_comma (y # ys)"

section \<open>Currency normalisation (admin\_routes.py, normalize\_currency\_options)\<close>

text \<open>
  The argument \<^verbatim>\<open>raw_options\<close> comes from the JSON body: it is missing or null, a
  string, or a list of strings.
\<close>

datatype raw_options = OptNone | OptStr string | OptList "string list"

text \<open>Python truthiness of \<^verbatim>\<open>raw_options\<close>: \<^verbatim>\<open>not raw_options\<close>.\<close>

fun not_raw :: "raw_options \<Rightarrow> bool" where
  "not_raw OptNone = True"
| "not_raw (OptStr s) = (s = [])"
| "not_raw (OptList xs) = (xs = [])"

text \<open>
  One round of the loop body up to the membership test:
  \<^verbatim>\<open>code = str(value).strip().upper(); if code in ('EURO', 'EUROS'): code = 'EUR'\<close>.
\<close>

definition currency_code :: "string \<Rightarrow> string" where
  "currency_code v =
     (let code = upper (strip v)
      in if code = ''EURO'' \<or> code = ''EUROS'' then ''EUR'' else code)"

text \<open>The \<^verbatim>\<open>for value in values\<close> loop, with the list \<^verbatim>\<open>cleaned\<close> as accumulator.\<close>

fun clean_loop :: "string list \<Rightarrow> string list \<Rightarrow> string list" where
  "clean_loop cleaned [] = cleaned"
| "clean_loop cleaned (v # values) =
     (let code = currency_code v
      in if code \<noteq> [] \<and> code \<notin> set cleaned
         then clean_loop (cleaned @ [code]) values
         else clean_loop cleaned values)"

definition normalize_currency_options :: "raw_options \<Rightarrow> string \<Rightarrow> string" where
  "normalize_currency_options raw default_currency =
     (if not_raw raw then upper default_currency
      else
        let values = (case raw of OptList xs \<Rightarrow> xs
                      | OptStr s \<Rightarrow> split_on CHR '','' s
                      | OptNone \<Rightarrow> []);
            cleaned = clean_loop [] values
        in join_comma (if cleaned = [] then [upper default_currency] else cleaned))"

text \<open>
  The parse both \<^verbatim>\<open>create_event\<close> and \<^verbatim>\<open>update_event\<close> apply to a stored
  \<^verbatim>\<open>currency_options\<close> string before the membership test:
  \<^verbatim>\<open>[c.strip() for c in s.split(',') if c.strip()]\<close>.
\<close>

definition allowed_currencies :: "string \<Rightarrow> string list" where
  "allowed_currencies s = filter (\<lambda>c. c \<noteq> []) (map strip (split_on CHR '','' s))"

section \<open>Data model (models.py)\<close>

text \<open>
  Each table is the list of its rows, in insertion order. A \<^verbatim>\<open>DateTime\<close> is a point
  on an integer time line, and the value of \<^verbatim>\<open>datetime.utcnow()\<close> is the argument
  \<open>now\<close> of the operation that reads the clock. A \<^verbatim>\<open>Float\<close> amount is only ever
  copied and compared by the operations below, never computed with; it is a real number
  here. A nullable column is an \<open>option\<close>. The columns \<^verbatim>\<open>phone\<close>,
  \<^verbatim>\<open>company_name\<close>, \<^verbatim>\<open>business_type\<close> of a user and
  \<^verbatim>\<open>booth_requirements\<close>, \<^verbatim>\<open>additional_notes\<close> of an application are read
  and written by none of the operations below and are left out.
\<close>

type_synonym datetime = int
type_synonym amount = real

record user =
  u_id :: nat
  u_email :: string
  u_password_hash :: string
  u_full_name :: string
  u_role :: string
  u_created_at :: datetime
  u_updated_at :: datetime
  u_is_active :: bool

record event =
  e_id :: nat
  e_name :: string
  e_description :: "string option"
  e_event_date :: datetime
  e_location :: "string option"
  e_venue :: "string option"
  e_expected_attendees :: "int option"
  e_vendor_fee :: "amount option"
  e_status :: string
  e_created_by_admin_id :: nat
  e_default_currency :: string
  e_currency_options :: string
  e_mpesa_number :: "string option"
  e_paypal_account :: "string option"
  e_zelle_account :: "string option"
  e_card_instructions :: "string option"
  e_created_at :: datetime
  e_updated_at :: datetime

record application =
  a_id :: nat
  a_vendor_id :: nat
  a_event_id :: nat
  a_product_service :: string
  a_status :: string
  a_admin_notes :: "string option"
  a_reviewed_at :: "datetime option"
  a_reviewed_by :: "nat option"
  a_applied_at :: datetime
  a_updated_at :: datetime

record payment =
  p_id :: nat
  p_application_id :: nat
  p_vendor_id :: nat
  p_amount :: amount
  p_payment_method :: "string option"
  p_transaction_id :: "string option"
  p_status :: string
  p_currency :: string
  p_pay_to :: "string option"
  p_payment_date :: "datetime option"
  p_created_at :: datetime
  p_updated_at :: datetime
  p_notes :: "string option"

record db =
  users :: "user list"
  events :: "event list"
  applications :: "application list"
  payments :: "payment list"

text \<open>\<^verbatim>\<open>Model.query.get(id)\<close>: the row with that primary key, or \<^verbatim>\<open>None\<close>.\<close>

definition get_user :: "db \<Rightarrow> nat \<Rightarrow> user option" where
  "get_user s i = find (\<lambda>u. u_id u = i) (users s)"

definition get_event :: "db \<Rightarrow> nat \<Rightarrow> event option" where
  "get_event s i = find (\<lambda>e. e_id e = i) (events s)"

definition get_application :: "db \<Rightarrow> nat \<Rightarrow> application option" where
  "get_application s i = find (\<lambda>a. a_id a = i) (applications s)"

definition get_payment :: "db \<Rightarrow> nat \<Rightarrow> payment option" where
  "get_payment s i = find (\<lambda>p. p_id p = i) (payments s)"

text \<open>The key an autoincrement primary key column gives the next inserted row.\<close>

definition next_id :: "nat list \<Rightarrow> nat" where
  "next_id ids = Suc (fold max ids 0)"

text \<open>
  What a route returns: \<^verbatim>\<open>jsonify(body), code\<close> on success and
  \<^verbatim>\<open>jsonify({'error': message}), code\<close> otherwise. A route that writes returns the
  store as well: the committed one on success, the one it was given when it returns
  before \<^verbatim>\<open>db.session.commit()\<close> or after \<^verbatim>\<open>db.session.rollback()\<close>.
\<close>

datatype 'a response = Response nat 'a | Error nat string

section \<open>Identity (admin\_routes.py, check\_admin and get\_current\_admin\_id)\<close>

text \<open>
  The argument \<open>caller\<close> of every route is the value of \<^verbatim>\<open>_current_user_id()\<close>:
  the identity of the bearer token as a number, or \<^verbatim>\<open>None\<close> when it is not one.
\<close>

definition check_admin :: "db \<Rightarrow> nat option \<Rightarrow> bool" where
  "check_admin s caller =
     (case caller of None \<Rightarrow> False
      | Some current_user_id \<Rightarrow>
          (case get_user s current_user_id of None \<Rightarrow> False
           | Some u \<Rightarrow> u_role u = ''admin''))"

definition get_current_admin_id :: "db \<Rightarrow> nat option \<Rightarrow> nat option" where
  "get_current_admin_id s caller =
     (case caller of None \<Rightarrow> None
      | Some current_user_id \<Rightarrow>
          (case get_user s current_user_id of None \<Rightarrow> None
           | Some u \<Rightarrow> if u_role u \<noteq> ''admin'' then None else Some (u_id u)))"

section \<open>Vendor management (admin\_routes.py)\<close>

definition get_vendor_details ::
  "db \<Rightarrow> nat option \<Rightarrow> nat \<Rightarrow> (user \<times> application list \<times> payment list) response" where
  "get_vendor_details s caller vendor_id =
     (if \<not> check_admin s caller then Error 403 ''Access denied''
      else case get_user s vendor_id of
        None \<Rightarrow> Error 404 ''Vendor not found''
      | Some vendor \<Rightarrow>
          if u_role vendor \<noteq> ''vendor'' then Error 404 ''Vendor not found''
          else Response 200
            (vendor,
             filter (\<lambda>a. a_vendor_id a = vendor_id) (applications s),
             filter (\<lambda>p. p_vendor_id p = vendor_id) (payments s)))"

definition toggle_vendor_status ::
  "db \<Rightarrow> nat option \<Rightarrow> nat \<Rightarrow> datetime \<Rightarrow> user response \<times> db" where
  "toggle_vendor_status s caller vendor_id now =
     (if \<not> check_admin s caller then (Error 403 ''Access denied'', s)
      else case get_user s vendor_id of
        None \<Rightarrow> (Error 404 ''Vendor not found'', s)
      | Some vendor \<Rightarrow>
          if u_role vendor \<noteq> ''vendor'' then (Error 404 ''Vendor not found'', s)
          else
            let vendor' = vendor\<lparr>u_is_active := \<not> u_is_active vendor, u_updated_at := now\<rparr>
            in (Response 200 vendor',
                s\<lparr>users := map (\<lambda>u. if u_id u = vendor_id then vendor' else u) (users s)\<rparr>))"

section \<open>Application management (admin\_routes.py)\<close>

text \<open>
  The query parameters of \<^verbatim>\<open>GET /applications\<close>: \<open>status\<close> is
  \<^verbatim>\<open>request.args.get('status')\<close> and \<open>event_id\<close> is
  \<^verbatim>\<open>request.args.get('event_id', type=int)\<close>. Each filter is applied under Python's
  truth test (\<^verbatim>\<open>if status:\<close>, \<^verbatim>\<open>if event_id:\<close>), which the empty string and zero fail.
  The inner join with \<^verbatim>\<open>Event\<close> keeps an application with the event its foreign key
  names.

  Both filters are written \<^verbatim>\<open>query.filter_by(...)\<close> after \<^verbatim>\<open>join(Event)\<close>, and
  \<^verbatim>\<open>filter_by\<close> takes its columns from the entity joined last, which is
  \<^verbatim>\<open>Event\<close>: \<^verbatim>\<open>filter_by(status=status)\<close> compares the status of the event, and
  \<^verbatim>\<open>filter_by(event_id=event_id)\<close> raises, \<^verbatim>\<open>Event\<close> having no such column, so
  that the handler answers 500 with the text of the exception (here the name of its
  class).
\<close>

definition owned_by :: "db \<Rightarrow> nat \<Rightarrow> application \<Rightarrow> bool" where
  "owned_by s admin_id a =
     (case get_event s (a_event_id a) of None \<Rightarrow> False
      | Some e \<Rightarrow> e_created_by_admin_id e = admin_id)"

definition event_status_is :: "db \<Rightarrow> string \<Rightarrow> application \<Rightarrow> bool" where
  "event_status_is s st a =
     (case get_event s (a_event_id a) of None \<Rightarrow> False
      | Some e \<Rightarrow> e_status e = st)"

definition get_all_applications ::
  "db \<Rightarrow> nat option \<Rightarrow> string option \<Rightarrow> int option \<Rightarrow> application list response" where
  "get_all_applications s caller status event_id =
     (if \<not> check_admin s caller then Error 403 ''Access denied''
      else case get_current_admin_id s caller of
        None \<Rightarrow> Error 403 ''Access denied''
      | Some current_admin_id \<Rightarrow>
          let query = filter (owned_by s current_admin_id) (applications s);
              query' = (case status of
                          None \<Rightarrow> query
                        | Some st \<Rightarrow> if st \<noteq> [] then filter (event_status_is s st) query else query)
          in case event_id of
               None \<Rightarrow> Response 200 (sort_key (\<lambda>a. - a_applied_at a) query')
             | Some i \<Rightarrow>
                 if i \<noteq> 0 then Error 500 ''InvalidRequestError''
                 else Response 200 (sort_key (\<lambda>a. - a_applied_at a) query'))"

text \<open>
  The JSON body of \<^verbatim>\<open>PUT /applications/<id>/review\<close>: \<open>rd_status\<close> is
  \<^verbatim>\<open>None\<close> when the key \<^verbatim>\<open>status\<close> is not in the body, \<open>rd_admin_notes\<close> is
  \<^verbatim>\<open>data.get('admin_notes')\<close>.
\<close>

record review_data =
  rd_status :: "string option"
  rd_admin_notes :: "string option"

text \<open>
  The row \<^verbatim>\<open>Payment(application_id=..., vendor_id=..., amount=..., status='pending')\<close>
  once inserted: the other columns take their defaults.
\<close>

definition new_payment :: "db \<Rightarrow> application \<Rightarrow> amount \<Rightarrow> datetime \<Rightarrow> payment" where
  "new_payment s application fee now =
     \<lparr>p_id = next_id (map p_id (payments s)),
      p_application_id = a_id application,
      p_vendor_id = a_vendor_id application,
      p_amount = fee,
      p_payment_method = None,
      p_transaction_id = None,
      p_status = ''pending'',
      p_currency = ''USD'',
      p_pay_to = None,
      p_payment_date = None,
      p_created_at = now,
      p_updated_at = now,
      p_notes = None\<rparr>"

text \<open>
  \<^verbatim>\<open>review_application\<close>. The column \<^verbatim>\<open>payments.amount\<close> is not nullable while
  \<^verbatim>\<open>events.vendor_fee\<close> is: inserting a payment for an event without a fee fails at
  the commit, the handler rolls back and answers 500 with the text of the exception
  (here the name of its class).
\<close>

definition review_application ::
  "db \<Rightarrow> nat option \<Rightarrow> nat \<Rightarrow> review_data \<Rightarrow> datetime \<Rightarrow> application response \<times> db" where
  "review_application s caller application_id data now =
     (if \<not> check_admin s caller then (Error 403 ''Access denied'', s)
      else case caller of
        None \<Rightarrow> (Error 401 ''Invalid token'', s)
      | Some current_user_id \<Rightarrow>
          (case get_application s application_id of
             None \<Rightarrow> (Error 404 ''Application not found'', s)
           | Some application \<Rightarrow>
               (case get_event s (a_event_id application) of
                  None \<Rightarrow> (Error 403 ''Access denied for this event'', s)
                | Some ev \<Rightarrow>
                    if e_created_by_admin_id ev \<noteq> current_user_id
                    then (Error 403 ''Access denied for this event'', s)
                    else
                      (case rd_status data of
                         None \<Rightarrow> (Error 400 ''Invalid status. Must be approved or rejected'', s)
                       | Some st \<Rightarrow>
                           if st \<noteq> ''approved'' \<and> st \<noteq> ''rejected''
                           then (Error 400 ''Invalid status. Must be approved or rejected'', s)
                           else
                             let application' = application
                                   \<lparr>a_status := st,
                                    a_admin_notes := rd_admin_notes data,
                                    a_reviewed_at := Some now,
                                    a_reviewed_by := Some current_user_id,
                                    a_updated_at := now\<rparr>;
                                 s' = s\<lparr>applications :=
                                         map (\<lambda>a. if a_id a = application_id then application' else a)
                                           (applications s)\<rparr>
                             in if st = ''approved''
                                then
                                  (case find (\<lambda>p. p_application_id p = a_id application) (payments s) of
                                     Some existing_payment \<Rightarrow> (Response 200 application', s')
                                   | None \<Rightarrow>
                                       (case e_vendor_fee ev of
                                          None \<Rightarrow> (Error 500 ''IntegrityError'', s)
                                        | Some fee \<Rightarrow>
                                            (Response 200 application',
                                             s'\<lparr>payments :=
                                                  payments s @ [new_payment s application fee now]\<rparr>)))
                                else (Response 200 application', s')))))"

section \<open>Event management (admin\_routes.py)\<close>

definition get_all_events :: "db \<Rightarrow> nat option \<Rightarrow> (event \<times> nat \<times> nat) list response" where
  "get_all_events s caller =
     (if \<not> check_admin s caller then Error 403 ''Access denied''
      else case get_current_admin_id s caller of
        None \<Rightarrow> Error 403 ''Access denied''
      | Some current_admin_id \<Rightarrow>
          Response 200
            (map (\<lambda>e. (e,
                        length (filter (\<lambda>a. a_event_id a = e_id e) (applications s)),
                        length (filter (\<lambda>a. a_event_id a = e_id e \<and> a_status a = ''approved'')
                                  (applications s))))
               (sort_key (\<lambda>e. - e_event_date e)
                  (filter (\<lambda>e. e_created_by_admin_id e = current_admin_id) (events s)))))"

text \<open>
  The JSON body of \<^verbatim>\<open>POST /events\<close> and \<^verbatim>\<open>PUT /events/<id>\<close>. A field is
  \<^verbatim>\<open>None\<close> when its key is not in the body and holds the value otherwise, each value
  of the type its column has; \<open>ed_currency_options\<close> is a string, a list of strings or
  null when the key is there.
\<close>

record event_data =
  ed_name :: "string option"
  ed_description :: "string option"
  ed_event_date :: "string option"
  ed_location :: "string option"
  ed_venue :: "string option"
  ed_expected_attendees :: "int option"
  ed_vendor_fee :: "amount option"
  ed_status :: "string option"
  ed_default_currency :: "string option"
  ed_currency_options :: "raw_options option"
  ed_mpesa_number :: "string option"
  ed_paypal_account :: "string option"
  ed_zelle_account :: "string option"
  ed_card_instructions :: "string option"

text \<open>\<^verbatim>\<open>data.get(key, default)\<close>.\<close>

definition get_or :: "'a option \<Rightarrow> 'a \<Rightarrow> 'a" where
  "get_or v d = (case v of None \<Rightarrow> d | Some x \<Rightarrow> x)"

text \<open>\<^verbatim>\<open>if key in data: column = data[key]\<close>, for a nullable column.\<close>

definition merge :: "'a option \<Rightarrow> 'a option \<Rightarrow> 'a option" where
  "merge v old = (case v of None \<Rightarrow> old | Some x \<Rightarrow> Some x)"

text \<open>
  \<^verbatim>\<open>create_event\<close>. The argument \<open>fromisoformat\<close> stands for the library call
  \<^verbatim>\<open>datetime.fromisoformat(text.replace('Z', '+00:00'))\<close>, \<^verbatim>\<open>None\<close> where it raises
  \<^verbatim>\<open>ValueError\<close>.
\<close>

definition create_event ::
  "(string \<Rightarrow> datetime option) \<Rightarrow> db \<Rightarrow> nat option \<Rightarrow> event_data \<Rightarrow> datetime
     \<Rightarrow> event response \<times> db" where
  "create_event fromisoformat s caller data now =
     (if \<not> check_admin s caller then (Error 403 ''Access denied'', s)
      else case get_current_admin_id s caller of
        None \<Rightarrow> (Error 403 ''Access denied'', s)
      | Some current_admin_id \<Rightarrow>
          (case ed_name data of
             None \<Rightarrow> (Error 400 ''Missing required field: name'', s)
           | Some name \<Rightarrow>
               (case ed_event_date data of
                  None \<Rightarrow> (Error 400 ''Missing required field: event_date'', s)
                | Some date_text \<Rightarrow>
                    (case fromisoformat date_text of
                       None \<Rightarrow> (Error 400 ''Invalid event_date format. Use ISO format'', s)
                     | Some event_date \<Rightarrow>
                         let ev =
                               \<lparr>e_id = next_id (map e_id (events s)),
                                e_name = name,
                                e_description = ed_description data,
                                e_event_date = event_date,
                                e_location = ed_location data,
                                e_venue = ed_venue data,
                                e_expected_attendees = ed_expected_attendees data,
                                e_vendor_fee = Some (get_or (ed_vendor_fee data) 0),
                                e_status = get_or (ed_status data) ''upcoming'',
                                e_created_by_admin_id = current_admin_id,
                                e_default_currency = upper (get_or (ed_default_currency data) ''USD''),
                                e_currency_options =
                                  normalize_currency_options
                                    (get_or (ed_currency_options data) OptNone)
                                    (get_or (ed_default_currency data) ''USD''),
                                e_mpesa_number = ed_mpesa_number data,
                                e_paypal_account = ed_paypal_account data,
                                e_zelle_account = ed_zelle_account data,
                                e_card_instructions = ed_card_instructions data,
                                e_created_at = now,
                                e_updated_at = now\<rparr>
                         in if e_default_currency ev \<notin> set (allowed_currencies (e_currency_options ev))
                            then (Error 400 ''default_currency must be included in currency_options'', s)
                            else (Response 201 ev, s\<lparr>events := events s @ [ev]\<rparr>)))))"

text \<open>
  The assignments of \<^verbatim>\<open>update_event\<close> to the loaded row, for a body whose
  \<^verbatim>\<open>event_date\<close>, when there, has parsed to \<open>event_date\<close>. The default handed to
  \<^verbatim>\<open>normalize_currency_options\<close> is
  \<^verbatim>\<open>data.get('default_currency', event.default_currency)\<close>.
\<close>

definition apply_event_data :: "event \<Rightarrow> event_data \<Rightarrow> datetime \<Rightarrow> event" where
  "apply_event_data ev data event_date =
     ev\<lparr>e_name := get_or (ed_name data) (e_name ev),
        e_description := merge (ed_description data) (e_description ev),
        e_event_date := event_date,
        e_location := merge (ed_location data) (e_location ev),
        e_venue := merge (ed_venue data) (e_venue ev),
        e_expected_attendees := merge (ed_expected_attendees data) (e_expected_attendees ev),
        e_vendor_fee := merge (ed_vendor_fee data) (e_vendor_fee ev),
        e_status := get_or (ed_status data) (e_status ev),
        e_default_currency :=
          (case ed_default_currency data of
             None \<Rightarrow> e_default_currency ev
           | Some c \<Rightarrow> upper c),
        e_currency_options :=
          (case ed_currency_options data of
             None \<Rightarrow> e_currency_options ev
           | Some raw \<Rightarrow>
               normalize_currency_options raw
                 (get_or (ed_default_currency data) (e_default_currency ev))),
        e_mpesa_number := merge (ed_mpesa_number data) (e_mpesa_number ev),
        e_paypal_account := merge (ed_paypal_account data) (e_paypal_account ev),
        e_zelle_account := merge (ed_zelle_account data) (e_zelle_account ev),
        e_card_instructions := merge (ed_card_instructions data) (e_card_instructions ev)\<rparr>"

text \<open>
  \<^verbatim>\<open>update_event\<close>. The row is changed in the session and written by the commit at
  the end only; a return before it leaves the store as it was.
\<close>

definition update_event ::
  "(string \<Rightarrow> datetime option) \<Rightarrow> db \<Rightarrow> nat option \<Rightarrow> nat \<Rightarrow> event_data \<Rightarrow> datetime
     \<Rightarrow> event response \<times> db" where
  "update_event fromisoformat s caller event_id data now =
     (if \<not> check_admin s caller then (Error 403 ''Access denied'', s)
      else case get_event s event_id of
        None \<Rightarrow> (Error 404 ''Event not found'', s)
      | Some ev \<Rightarrow>
          (case get_current_admin_id s caller of
             None \<Rightarrow> (Error 403 ''Access denied for this event'', s)
           | Some current_admin_id \<Rightarrow>
               if e_created_by_admin_id ev \<noteq> current_admin_id
               then (Error 403 ''Access denied for this event'', s)
               else
                 (case (case ed_event_date data of
                          None \<Rightarrow> Some (e_event_date ev)
                        | Some date_text \<Rightarrow> fromisoformat date_text) of
                    None \<Rightarrow> (Error 400 ''Invalid event_date format'', s)
                  | Some event_date \<Rightarrow>
                      let ev' = apply_event_data ev data event_date;
                          allowed = allowed_currencies (e_currency_options ev')
                      in if allowed = []
                         then (Error 400 ''currency_options cannot be empty'', s)
                         else if upper (e_default_currency ev') \<notin> set allowed
                         then (Error 400 ''default_currency must be included in currency_options'', s)
                         else
                           let ev'' = ev'\<lparr>e_updated_at := now\<rparr>
                           in (Response 200 ev'',
                               s\<lparr>events :=
                                   map (\<lambda>e. if e_id e = event_id then ev'' else e) (events s)\<rparr>))))"

text \<open>
  \<^verbatim>\<open>delete_event\<close>. Deleting the row cascades to the event's applications and to
  their payments (\<^verbatim>\<open>cascade='all, delete-orphan'\<close> on both relationships). The
  number of applications the source puts into the message of the 400 answer is left out.
\<close>

definition delete_event :: "db \<Rightarrow> nat option \<Rightarrow> nat \<Rightarrow> unit response \<times> db" where
  "delete_event s caller event_id =
     (if \<not> check_admin s caller then (Error 403 ''Access denied'', s)
      else case get_event s event_id of
        None \<Rightarrow> (Error 404 ''Event not found'', s)
      | Some ev \<Rightarrow>
          (case get_current_admin_id s caller of
             None \<Rightarrow> (Error 403 ''Access denied for this event'', s)
           | Some current_admin_id \<Rightarrow>
               if e_created_by_admin_id ev \<noteq> current_admin_id
               then (Error 403 ''Access denied for this event'', s)
               else if 0 < length (filter (\<lambda>a. a_event_id a = event_id) (applications s))
               then (Error 400 ''Cannot delete event with applications. Cancel event instead.'', s)
               else
                 let gone = filter (\<lambda>a. a_event_id a = event_id) (applications s)
                 in (Response 200 (),
                     s\<lparr>events := filter (\<lambda>e. e_id e \<noteq> event_id) (events s),
                       applications := filter (\<lambda>a. a_event_id a \<noteq> event_id) (applications s),
                       payments :=
                         filter (\<lambda>p. p_application_id p \<notin> a_id ` set gone) (payments s)\<rparr>)))"

section \<open>Payment management (admin\_routes.py)\<close>

text \<open>
  The ownership chain of a payment: the admin who created the event of the application
  the payment belongs to, when both rows are there.
\<close>

definition payment_owner :: "db \<Rightarrow> payment \<Rightarrow> nat option" where
  "payment_owner s p =
     (case get_application s (p_application_id p) of
        None \<Rightarrow> None
      | Some a \<Rightarrow>
          (case get_event s (a_event_id a) of
             None \<Rightarrow> None
           | Some e \<Rightarrow> Some (e_created_by_admin_id e)))"

definition get_all_payments :: "db \<Rightarrow> nat option \<Rightarrow> payment list response" where
  "get_all_payments s caller =
     (if \<not> check_admin s caller then Error 403 ''Access denied''
      else case get_current_admin_id s caller of
        None \<Rightarrow> Error 403 ''Access denied''
      | Some current_admin_id \<Rightarrow>
          Response 200
            (sort_key (\<lambda>p. - p_created_at p)
               (filter (\<lambda>p. payment_owner s p = Some current_admin_id) (payments s))))"

text \<open>The JSON body of \<^verbatim>\<open>PUT /payments/<id>/update-status\<close>.\<close>

record payment_data =
  pd_status :: "string option"
  pd_payment_method :: "string option"
  pd_transaction_id :: "string option"
  pd_notes :: "string option"

text \<open>
  \<^verbatim>\<open>update_payment_status\<close>. The column \<^verbatim>\<open>transaction_id\<close> is unique: a commit
  that would give two rows the same transaction id fails, the handler rolls back and
  answers 500.
\<close>

definition update_payment_status ::
  "db \<Rightarrow> nat option \<Rightarrow> nat \<Rightarrow> payment_data \<Rightarrow> datetime \<Rightarrow> payment response \<times> db" where
  "update_payment_status s caller payment_id data now =
     (if \<not> check_admin s caller then (Error 403 ''Access denied'', s)
      else case get_payment s payment_id of
        None \<Rightarrow> (Error 404 ''Payment not found'', s)
      | Some p \<Rightarrow>
          (case get_current_admin_id s caller of
             None \<Rightarrow> (Error 403 ''Access denied'', s)
           | Some current_admin_id \<Rightarrow>
               if payment_owner s p \<noteq> Some current_admin_id
               then (Error 403 ''Access denied for this event'', s)
               else
                 (case pd_status data of
                    None \<Rightarrow> (Error 400 ''Status is required'', s)
                  | Some st \<Rightarrow>
                      if st \<notin> {''pending'', ''completed'', ''failed'', ''refunded''}
                      then (Error 400 ''Invalid status'', s)
                      else
                        let p' = p
                              \<lparr>p_status := st,
                               p_payment_date :=
                                 (if st = ''completed'' \<and> p_payment_date p = None
                                  then Some now else p_payment_date p),
                               p_payment_method := merge (pd_payment_method data) (p_payment_method p),
                               p_transaction_id := merge (pd_transaction_id data) (p_transaction_id p),
                               p_notes := merge (pd_notes data) (p_notes p),
                               p_updated_at := now\<rparr>
                        in if p_transaction_id p' \<noteq> None \<and>
                              (\<exists>q \<in> set (payments s).
                                 p_id q \<noteq> payment_id \<and> p_transaction_id q = p_transaction_id p')
                           then (Error 500 ''IntegrityError'', s)
                           else
                             (Response 200 p',
                              s\<lparr>payments :=
                                  map (\<lambda>q. if p_id q = payment_id then p' else q) (payments s)\<rparr>))))"

section \<open>Login (auth\_routes.py)\<close>





section \<open>Vocabulary of the properties\<close>



text \<open>The currency invariant of an event, with the parse of the two routes.\<close>

definition currency_ok :: "event \<Rightarrow> bool" where
  "currency_ok e = (e_default_currency e \<in> set (allowed_currencies (e_currency_options e)))"

text \<open>What both routes store as \<^verbatim>\<open>default_currency\<close>: a string in upper case.\<close>

definition default_upper :: "event \<Rightarrow> bool" where
  "default_upper e = (upper (e_default_currency e) = e_default_currency e)"

text \<open>Both together: what the two routes keep true of every stored event.\<close>

definition event_inv :: "event \<Rightarrow> bool" where
  "event_inv e = (currency_ok e \<and> default_upper e)"

text \<open>The payment rows that reference an application.\<close>

definition payments_for :: "db \<Rightarrow> nat \<Rightarrow> payment list" where
  "payments_for s application_id = filter (\<lambda>p. p_application_id p = application_id) (payments s)"

fun is_ok :: "'a response \<Rightarrow> bool" where
  "is_ok (Response code body) = True"
| "is_ok (Error code message) = False"


text \<open>The row a successful \<open>update_payment_status\<close> writes, for the new status \<open>st\<close>.\<close>

definition updated_payment :: "payment \<Rightarrow> payment_data \<Rightarrow> string \<Rightarrow> datetime \<Rightarrow> payment" where
  "updated_payment p data st now =
     p\<lparr>p_status := st,
       p_payment_date :=
         (if st = ''completed'' \<and> p_payment_date p = None then Some now else p_payment_date p),
       p_payment_method := merge (pd_payment_method data) (p_payment_method p),
       p_transaction_id := merge (pd_transaction_id data) (p_transaction_id p),
       p_notes := merge (pd_notes data) (p_notes p),
       p_updated_at := now\<rparr>"


text \<open>The same for status updates of one payment.\<close>

fun update_calls ::
  "db \<Rightarrow> nat \<Rightarrow> (nat option \<times> payment_data \<times> datetime) list \<Rightarrow> payment response list \<times> db" where
  "update_calls s payment_id [] = ([], s)"
| "update_calls s payment_id ((caller, data, now) # calls) =
     (let (r, s') = update_payment_status s caller payment_id data now;
          (rs, s'') = update_calls s' payment_id calls
      in (r # rs, s''))"

text \<open>
  The time of the first request of a sequence that was answered with success and asked
  for the status \<^verbatim>\<open>completed\<close>.
\<close>

fun first_completed ::
  "(nat option \<times> payment_data \<times> datetime) list \<Rightarrow> payment response list \<Rightarrow> datetime option" where
  "first_completed ((caller, data, now) # calls) (r # rs) =
     (if is_ok r \<and> pd_status data = Some ''completed'' then Some now
      else first_completed calls rs)"
| "first_completed calls rs = None"

text \<open>The requests of the admin routes that write, and a run of them.\<close>

datatype admin_request =
    ToggleVendorStatus nat
  | ReviewApplication nat review_data
  | CreateEvent event_data
  | UpdateEvent nat event_data
  | DeleteEvent nat
  | UpdatePaymentStatus nat payment_data

fun admin_step ::
  "(string \<Rightarrow> datetime option) \<Rightarrow> db \<Rightarrow> nat option \<times> datetime \<times> admin_request \<Rightarrow> db" where
  "admin_step f s (caller, now, ToggleVendorStatus vendor_id) =
     snd (toggle_vendor_status s caller vendor_id now)"
| "admin_step f s (caller, now, ReviewApplication application_id data) =
     snd (review_application s caller application_id data now)"
| "admin_step f s (caller, now, CreateEvent data) =
     snd (create_event f s caller data now)"
| "admin_step f s (caller, now, UpdateEvent event_id data) =
     snd (update_event f s caller event_id data now)"
| "admin_step f s (caller, now, DeleteEvent event_id) =
     snd (delete_event s caller event_id)"
| "admin_step f s (caller, now, UpdatePaymentStatus payment_id data) =
     snd (update_payment_status s caller payment_id data now)"

definition admin_run ::
  "(string \<Rightarrow> datetime option) \<Rightarrow> db \<Rightarrow> (nat option \<times> datetime \<times> admin_request) list \<Rightarrow> db" where
  "admin_run f s requests = foldl (admin_step f) s requests"

text \<open>Every payment of the first store is in the second, with the amount it had.\<close>

definition amounts_kept :: "db \<Rightarrow> db \<Rightarrow> bool" where
  "amounts_kept s s' =
     (\<forall>payment_id p. get_payment s payment_id = Some p \<longrightarrow>
        (\<exists>p'. get_payment s' payment_id = Some p' \<and> p_amount p' = p_amount p))"

section \<open>A store with two admins\<close>

text \<open>
  Admin A (id 1) owns event E (id 1, fee 500); admin B (id 2) owns event F (id 2, fee
  750). Vendor V (id 3) has a pending application to E and an approved one, with its
  payment, to F. Vendor W (id 4) is deactivated and has applied to nothing.
\<close>

definition admin_a :: user where
  "admin_a = \<lparr>u_id = 1, u_email = ''a@example.com'', u_password_hash = ''secret-a'',
     u_full_name = ''Admin A'', u_role = ''admin'', u_created_at = 0, u_updated_at = 0,
     u_is_active = True\<rparr>"

definition admin_b :: user where
  "admin_b = \<lparr>u_id = 2, u_email = ''b@example.com'', u_password_hash = ''secret-b'',
     u_full_name = ''Admin B'', u_role = ''admin'', u_created_at = 0, u_updated_at = 0,
     u_is_active = True\<rparr>"

definition vendor_v :: user where
  "vendor_v = \<lparr>u_id = 3, u_email = ''v@example.com'', u_password_hash = ''secret-v'',
     u_full_name = ''Vendor V'', u_role = ''vendor'', u_created_at = 1, u_updated_at = 1,
     u_is_active = True\<rparr>"

definition vendor_w :: user where
  "vendor_w = \<lparr>u_id = 4, u_email = ''w@example.com'', u_password_hash = ''secret-w'',
     u_full_name = ''Vendor W'', u_role = ''vendor'', u_created_at = 2, u_updated_at = 2,
     u_is_active = False\<rparr>"

definition event_e :: event where
  "event_e = \<lparr>e_id = 1, e_name = ''E'', e_description = None, e_event_date = 100,
     e_location = None, e_venue = None, e_expected_attendees = None, e_vendor_fee = Some 500,
     e_status = ''upcoming'', e_created_by_admin_id = 1, e_default_currency = ''USD'',
     e_currency_options = ''USD,EUR'', e_mpesa_number = None, e_paypal_account = None,
     e_zelle_account = None, e_card_instructions = None, e_created_at = 3, e_updated_at = 3\<rparr>"

definition event_f :: event where
  "event_f = \<lparr>e_id = 2, e_name = ''F'', e_description = None, e_event_date = 200,
     e_location = None, e_venue = None, e_expected_attendees = None, e_vendor_fee = Some 750,
     e_status = ''upcoming'', e_created_by_admin_id = 2, e_default_currency = ''USD'',
     e_currency_options = ''USD'', e_mpesa_number = None, e_paypal_account = None,
     e_zelle_account = None, e_card_instructions = None, e_created_at = 4, e_updated_at = 4\<rparr>"

definition app_e :: application where
  "app_e = \<lparr>a_id = 1, a_vendor_id = 3, a_event_id = 1, a_product_service = ''food'',
     a_status = ''pending'', a_admin_notes = None, a_reviewed_at = None, a_reviewed_by = None,
     a_applied_at = 5, a_updated_at = 5\<rparr>"

definition app_f :: application where
  "app_f = \<lparr>a_id = 2, a_vendor_id = 3, a_event_id = 2, a_product_service = ''crafts'',
     a_status = ''approved'', a_admin_notes = None, a_reviewed_at = Some 10,
     a_reviewed_by = Some 2, a_applied_at = 6, a_updated_at = 10\<rparr>"

definition pay_f :: payment where
  "pay_f = \<lparr>p_id = 1, p_application_id = 2, p_vendor_id = 3, p_amount = 750,
     p_payment_method = None, p_transaction_id = None, p_status = ''pending'',
     p_currency = ''USD'', p_pay_to = None, p_payment_date = None, p_created_at = 10,
     p_updated_at = 10, p_notes = None\<rparr>"

definition db0 :: db where
  "db0 = \<lparr>users = [admin_a, admin_b, vendor_v, vendor_w], events = [event_e, event_f],
     applications = [app_e, app_f], payments = [pay_f]\<rparr>"

text \<open>Request bodies used on that store.\<close>

definition approve :: review_data where
  "approve = \<lparr>rd_status = Some ''approved'', rd_admin_notes = None\<rparr>"

definition reject :: review_data where
  "reject = \<lparr>rd_status = Some ''rejected'', rd_admin_notes = None\<rparr>"

definition complete :: payment_data where
  "complete = \<lparr>pd_status = Some ''completed'', pd_payment_method = None,
     pd_transaction_id = None, pd_notes = None\<rparr>"

definition no_event_data :: event_data where
  "no_event_data = \<lparr>ed_name = None, ed_description = None, ed_event_date = None,
     ed_location = None, ed_venue = None, ed_expected_attendees = None, ed_vendor_fee = None,
     ed_status = None, ed_default_currency = None, ed_currency_options = None,
     ed_mpesa_number = None, ed_paypal_account = None, ed_zelle_account = None,
     ed_card_instructions = None\<rparr>"



text \<open>
  Admin B raises the fee of event F to 900 and then marks the payment of the application
  to F as completed.
\<close>

definition raise_fee :: event_data where
  "raise_fee = no_event_data\<lparr>ed_vendor_fee := Some 900\<rparr>"

definition fee_then_complete :: "(nat option \<times> datetime \<times> admin_request) list" where
  "fee_then_complete =
     [(Some 2, 40, UpdateEvent 2 raise_fee), (Some 2, 50, UpdatePaymentStatus 1 complete)]"

text \<open>
  Admin A creates an event with the options \<^verbatim>\<open>["Euros", " usd "]\<close> and the default
  \<^verbatim>\<open>"eur"\<close>, moves its default to \<^verbatim>\<open>"usd"\<close>, and then tries to move it to
  \<^verbatim>\<open>"kes"\<close>, which is not among the options. Every date text parses to day 300.
\<close>

definition euro_event :: event_data where
  "euro_event = no_event_data\<lparr>ed_name := Some ''G'', ed_event_date := Some ''2026-05-01'',
     ed_default_currency := Some ''eur'',
     ed_currency_options := Some (OptList [''Euros'', '' usd ''])\<rparr>"

definition to_usd :: event_data where
  "to_usd = no_event_data\<lparr>ed_default_currency := Some ''usd''\<rparr>"

definition to_kes :: event_data where
  "to_kes = no_event_data\<lparr>ed_default_currency := Some ''kes''\<rparr>"

definition fixed_date :: "string \<Rightarrow> datetime option" where
  "fixed_date date_text = Some 300"

definition currency_run :: "(nat option \<times> datetime \<times> admin_request) list" where
  "currency_run =
     [(Some 1, 30, CreateEvent euro_event), (Some 1, 40, UpdateEvent 3 to_usd),
      (Some 1, 50, UpdateEvent 3 to_kes)]"

section \<open>Facts about the string primitives\<close>



lemma upper_char_shift:
  assumes "(97 \<le> (of_char c :: nat) \<and> (of_char c :: nat) \<le> 122) \<or>
           (224 \<le> (of_char c :: nat) \<and> (of_char c :: nat) \<le> 254 \<and> (of_char c :: nat) \<noteq> 247)"
  shows "\<exists>u. upper_char c = [u] \<and> (of_char u :: nat) = of_char c - 32"
proof -
  have "(of_char c :: nat) - 32 < 256" using assms by arith
  then have "((of_char c :: nat) - 32) mod 256 = of_char c - 32" by simp
  with assms show ?thesis by (auto simp add: upper_char_def Let_def)
qed

lemma upper_char_sharp_s: "(of_char c :: nat) = 223 \<Longrightarrow> upper_char c = ''SS''"
  by (simp add: upper_char_def Let_def)

lemma upper_char_same:
  assumes "\<not> ((97 \<le> (of_char c :: nat) \<and> (of_char c :: nat) \<le> 122) \<or>
           (224 \<le> (of_char c :: nat) \<and> (of_char c :: nat) \<le> 254 \<and> (of_char c :: nat) \<noteq> 247))"
    and "(of_char c :: nat) \<noteq> 223"
  shows "upper_char c = [c]"
  using assms by (auto simp add: upper_char_def Let_def)

lemma upper_char_cases:
  obtains (shift) u where "upper_char c = [u]" "(of_char u :: nat) = of_char c - 32"
      "(97 \<le> (of_char c :: nat) \<and> (of_char c :: nat) \<le> 122) \<or>
       (224 \<le> (of_char c :: nat) \<and> (of_char c :: nat) \<le> 254 \<and> (of_char c :: nat) \<noteq> 247)"
    | (sharp_s) "upper_char c = ''SS''" "(of_char c :: nat) = 223"
    | (same) "upper_char c = [c]"
      "\<not> ((97 \<le> (of_char c :: nat) \<and> (of_char c :: nat) \<le> 122) \<or>
       (224 \<le> (of_char c :: nat) \<and> (of_char c :: nat) \<le> 254 \<and> (of_char c :: nat) \<noteq> 247))"
      "(of_char c :: nat) \<noteq> 223"
  using upper_char_shift [of c] upper_char_sharp_s [of c] upper_char_same [of c] by blast

lemma upper_Nil: "upper [] = []"
  by (simp add: upper_def)

lemma upper_Cons: "upper (c # s) = upper_char c @ upper s"
  by (simp add: upper_def)

lemma upper_append: "upper (s @ t) = upper s @ upper t"
  by (simp add: upper_def)

lemma upper_char_not_Nil: "upper_char c \<noteq> []"
  by (cases c rule: upper_char_cases) simp_all

lemma upper_eq_Nil: "upper s = [] \<longleftrightarrow> s = []"
  by (cases s) (simp_all add: upper_Nil upper_Cons upper_char_not_Nil)

lemma upper_upper_char: "upper (upper_char c) = upper_char c"
proof (cases c rule: upper_char_cases)
  case (shift u)
  from shift(2,3) have "\<not> ((97 \<le> (of_char u :: nat) \<and> (of_char u :: nat) \<le> 122) \<or>
       (224 \<le> (of_char u :: nat) \<and> (of_char u :: nat) \<le> 254 \<and> (of_char u :: nat) \<noteq> 247))"
    "(of_char u :: nat) \<noteq> 223"
    by arith+
  then have "upper_char u = [u]" by (rule upper_char_same)
  with shift(1) show ?thesis by (simp add: upper_Cons upper_Nil)
next
  case sharp_s
  have "upper ''SS'' = ''SS''" by code_simp
  with sharp_s show ?thesis by simp
next
  case same
  then show ?thesis by (simp add: upper_Cons upper_Nil)
qed

lemma upper_idem: "upper (upper s) = upper s"
  by (induction s) (simp_all add: upper_Nil upper_Cons upper_append upper_upper_char)













lemma split_on_not_Nil: "split_on sep s \<noteq> []"
  by (induction s) (auto split: list.splits)













section \<open>Currency normalisation is idempotent on its own results\<close>




section \<open>Facts about the tables\<close>

lemmas store_defs = db0_def admin_a_def admin_b_def vendor_v_def vendor_w_def event_e_def
  event_f_def app_e_def app_f_def pay_f_def

lemmas body_defs = approve_def reject_def complete_def

lemma find_map_replace:
  assumes "find (\<lambda>x. key x = k) xs = Some x" and "key y = k"
  shows "find (\<lambda>x. key x = k) (map (\<lambda>x. if key x = k then y else x) xs) = Some y"
  using assms by (induction xs) (auto split: if_splits)

lemma find_map_other:
  assumes "key y = k" and "j \<noteq> k"
  shows "find (\<lambda>x. key x = j) (map (\<lambda>x. if key x = k then y else x) xs)
         = find (\<lambda>x. key x = j) xs"
  using assms by (induction xs) auto

lemma find_key: "find (\<lambda>x. key x = k) xs = Some x \<Longrightarrow> key x = k \<and> x \<in> set xs"
  by (induction xs) (auto split: if_splits)

section \<open>Any admin may switch any vendor on and off\<close>

text \<open>
  Claim C10: for every caller who is an admin and every user whose role is
  \<^verbatim>\<open>vendor\<close>, \<open>toggle_vendor_status\<close> answers 200 and flips the vendor's
  \<^verbatim>\<open>is_active\<close> flag (and sets \<^verbatim>\<open>updated_at\<close>); nothing about events or
  applications is asked of the pair, and no other table changes.
\<close>

theorem toggle_vendor_status_any_admin:
  assumes "get_user s admin_id = Some admin" and "u_role admin = ''admin''"
    and "get_user s vendor_id = Some vendor" and "u_role vendor = ''vendor''"
  shows "\<exists>vendor' s'.
           toggle_vendor_status s (Some admin_id) vendor_id now = (Response 200 vendor', s') \<and>
           get_user s' vendor_id = Some vendor' \<and>
           u_is_active vendor' = (\<not> u_is_active vendor) \<and>
           vendor' = vendor\<lparr>u_is_active := \<not> u_is_active vendor, u_updated_at := now\<rparr> \<and>
           events s' = events s \<and> applications s' = applications s \<and> payments s' = payments s"
proof -
  from assms(3) have k: "u_id vendor = vendor_id"
    unfolding get_user_def by (auto dest: find_key)
  let ?v = "vendor\<lparr>u_is_active := \<not> u_is_active vendor, u_updated_at := now\<rparr>"
  have "find (\<lambda>u. u_id u = vendor_id) (map (\<lambda>u. if u_id u = vendor_id then ?v else u) (users s)) = Some ?v"
    using assms(3) k unfolding get_user_def by (intro find_map_replace) simp_all
  with assms show ?thesis
    by (simp add: toggle_vendor_status_def check_admin_def get_user_def Let_def)
qed

text \<open>
  C10 on the store above: admin A reactivates vendor W, who has applied to no event at
  all.
\<close>

theorem toggle_vendor_status_any_admin_witness:
  "toggle_vendor_status db0 (Some 1) 4 70 =
     (Response 200 (vendor_w\<lparr>u_is_active := True, u_updated_at := 70\<rparr>),
      db0\<lparr>users := [admin_a, admin_b, vendor_v, vendor_w\<lparr>u_is_active := True, u_updated_at := 70\<rparr>]\<rparr>) \<and>
   filter (\<lambda>a. a_vendor_id a = 4) (applications db0) = []"
proof -
  have 1: "get_user db0 1 = Some admin_a" "u_role admin_a = ''admin''"
    "get_user db0 4 = Some vendor_w" "u_role vendor_w = ''vendor''"
    by (simp_all add: get_user_def store_defs)
  from toggle_vendor_status_any_admin [OF 1, of 70] show ?thesis
    by (simp add: toggle_vendor_status_def check_admin_def get_user_def store_defs Let_def)
qed

section \<open>Login\<close>




section \<open>Listing applications\<close>

text \<open>
  What \<open>get_all_applications\<close> answers to an admin: 500 to an \<open>event_id\<close> that is
  not zero, and otherwise the admin's applications, those of events with the given status
  when \<open>status\<close> is not empty.
\<close>

lemma get_all_applications_event_id:
  assumes "get_user s admin_id = Some admin" and "u_role admin = ''admin''" and "i \<noteq> 0"
  shows "get_all_applications s (Some admin_id) status (Some i) = Error 500 ''InvalidRequestError''"
  using assms
  by (simp add: get_all_applications_def check_admin_def get_current_admin_id_def Let_def)

lemma get_all_applications_status:
  assumes "get_user s admin_id = Some admin" and "u_role admin = ''admin''" and "st \<noteq> []"
  shows "\<exists>apps. get_all_applications s (Some admin_id) (Some st) None = Response 200 apps \<and>
           set apps = {a \<in> set (applications s). \<exists>e. get_event s (a_event_id a) = Some e \<and>
                         e_created_by_admin_id e = admin_id \<and> e_status e = st}"
proof -
  from assms(1) have k: "u_id admin = admin_id"
    unfolding get_user_def by (auto dest: find_key)
  have "get_all_applications s (Some admin_id) (Some st) None =
      Response 200 (sort_key (\<lambda>a. - a_applied_at a)
        (filter (event_status_is s st) (filter (owned_by s admin_id) (applications s))))"
    using assms k
    by (simp add: get_all_applications_def check_admin_def get_current_admin_id_def Let_def)
  then show ?thesis
    by (auto simp add: owned_by_def event_status_is_def split: option.splits)
qed

text \<open>
  Claim C4 has the \<open>status\<close> filter compare the status of the application and the
  \<open>event_id\<close> filter its event. On the store above admin A owns one application, which
  is pending, to event 1, which is upcoming: asked for \<^verbatim>\<open>status=pending\<close> the route
  answers with no application, asked for \<^verbatim>\<open>status=upcoming\<close> with that one, and asked
  for \<^verbatim>\<open>event_id=1\<close> with 500.
\<close>

theorem get_all_applications_filters_event:
  "get_all_applications db0 (Some 1) (Some ''pending'') None = Response 200 [] \<and>
   get_all_applications db0 (Some 1) (Some ''upcoming'') None = Response 200 [app_e] \<and>
   get_all_applications db0 (Some 1) None (Some 1) = Error 500 ''InvalidRequestError'' \<and>
   get_all_applications db0 (Some 1) None None = Response 200 [app_e] \<and>
   a_status app_e = ''pending'' \<and> a_event_id app_e = 1"
  by (simp add: get_all_applications_def check_admin_def get_current_admin_id_def get_user_def
      owned_by_def event_status_is_def get_event_def Let_def store_defs)

section \<open>Reviewing an application\<close>

text \<open>
  Claim C3, as stated, has a review leave an approved, rejected or withdrawn application
  alone. The route does not look at the current status: admin B rejects the approved
  application to event F, and its \<^verbatim>\<open>reviewed_at\<close> moves from 10 to 50.
\<close>

theorem review_leaves_approved:
  "review_application db0 (Some 2) 2 reject 50 =
     (Response 200 (app_f\<lparr>a_status := ''rejected'', a_reviewed_at := Some 50, a_updated_at := 50\<rparr>),
      db0\<lparr>applications :=
            [app_e, app_f\<lparr>a_status := ''rejected'', a_reviewed_at := Some 50, a_updated_at := 50\<rparr>]\<rparr>) \<and>
   a_status app_f = ''approved'' \<and> a_reviewed_at app_f = Some 10"
  by (simp add: review_application_def check_admin_def get_user_def get_application_def
      get_event_def Let_def store_defs body_defs)

text \<open>
  The answer of \<open>review_application\<close> to the owner of the event, for a valid status.
\<close>

lemma review_application_success:
  assumes admin: "get_user s admin_id = Some admin" "u_role admin = ''admin''"
    and app: "get_application s application_id = Some a"
    and ev: "get_event s (a_event_id a) = Some ev" "e_created_by_admin_id ev = admin_id"
    and st: "rd_status data = Some st" "st = ''approved'' \<or> st = ''rejected''"
  shows "review_application s (Some admin_id) application_id data now =
     (let a' = a\<lparr>a_status := st, a_admin_notes := rd_admin_notes data, a_reviewed_at := Some now,
                 a_reviewed_by := Some admin_id, a_updated_at := now\<rparr>;
          s' = s\<lparr>applications := map (\<lambda>x. if a_id x = application_id then a' else x) (applications s)\<rparr>
      in if st = ''approved'' \<and> payments_for s application_id = []
         then (case e_vendor_fee ev of
                 None \<Rightarrow> (Error 500 ''IntegrityError'', s)
               | Some fee \<Rightarrow> (Response 200 a', s'\<lparr>payments := payments s @ [new_payment s a fee now]\<rparr>))
         else (Response 200 a', s'))"
proof -
  from app have k: "a_id a = application_id"
    unfolding get_application_def by (auto dest: find_key)
  have f: "find (\<lambda>p. p_application_id p = application_id) (payments s) = None
           \<longleftrightarrow> payments_for s application_id = []"
    by (auto simp add: payments_for_def find_None_iff filter_empty_conv)
  show ?thesis
  proof (cases "find (\<lambda>p. p_application_id p = application_id) (payments s)")
    case None
    with f have "payments_for s application_id = []" by simp
    with None assms k show ?thesis
      by (auto simp add: review_application_def check_admin_def Let_def split: option.splits)
  next
    case (Some p)
    with f have "payments_for s application_id \<noteq> []" by simp
    with Some assms k show ?thesis
      by (auto simp add: review_application_def check_admin_def Let_def split: option.splits)
  qed
qed

text \<open>
  Claim C3, amended: take a review by the admin who owns the application's event, with
  the new status \<^verbatim>\<open>approved\<close> or \<^verbatim>\<open>rejected\<close>, of an application in any status
  (approved, rejected and withdrawn included). If it is an approval, no payment
  references the application yet and the event has no fee, the route answers 500 and
  changes nothing. In every other case it answers 200 and sets the status to the new one,
  \<^verbatim>\<open>reviewed_at\<close> to the current time and \<^verbatim>\<open>reviewed_by\<close> to the caller: no
  status is terminal, and a repeated review overwrites both fields.
\<close>

theorem review_overwrites:
  assumes "get_user s admin_id = Some admin" and "u_role admin = ''admin''"
    and "get_application s application_id = Some a"
    and "get_event s (a_event_id a) = Some ev" and "e_created_by_admin_id ev = admin_id"
    and "rd_status data = Some st" and "st = ''approved'' \<or> st = ''rejected''"
  shows "(st = ''approved'' \<and> payments_for s application_id = [] \<and> e_vendor_fee ev = None \<longrightarrow>
            review_application s (Some admin_id) application_id data now
              = (Error 500 ''IntegrityError'', s)) \<and>
         (\<not> (st = ''approved'' \<and> payments_for s application_id = [] \<and> e_vendor_fee ev = None) \<longrightarrow>
            (\<exists>a' s'. review_application s (Some admin_id) application_id data now
                        = (Response 200 a', s') \<and>
               get_application s' application_id = Some a' \<and>
               a' = a\<lparr>a_status := st, a_admin_notes := rd_admin_notes data,
                       a_reviewed_at := Some now, a_reviewed_by := Some admin_id,
                       a_updated_at := now\<rparr>))"
proof (intro conjI impI)
  assume "st = ''approved'' \<and> payments_for s application_id = [] \<and> e_vendor_fee ev = None"
  then show "review_application s (Some admin_id) application_id data now
              = (Error 500 ''IntegrityError'', s)"
    unfolding review_application_success [OF assms] by (simp add: Let_def)
next
  assume n: "\<not> (st = ''approved'' \<and> payments_for s application_id = [] \<and> e_vendor_fee ev = None)"
  from assms(3) have k: "a_id a = application_id"
    unfolding get_application_def by (auto dest: find_key)
  let ?a = "a\<lparr>a_status := st, a_admin_notes := rd_admin_notes data, a_reviewed_at := Some now,
                a_reviewed_by := Some admin_id, a_updated_at := now\<rparr>"
  have g: "find (\<lambda>x. a_id x = application_id)
             (map (\<lambda>x. if a_id x = application_id then ?a else x) (applications s)) = Some ?a"
    using assms(3) k unfolding get_application_def by (intro find_map_replace) simp_all
  show "\<exists>a' s'. review_application s (Some admin_id) application_id data now
                        = (Response 200 a', s') \<and>
               get_application s' application_id = Some a' \<and>
               a' = a\<lparr>a_status := st, a_admin_notes := rd_admin_notes data,
                       a_reviewed_at := Some now, a_reviewed_by := Some admin_id,
                       a_updated_at := now\<rparr>"
    unfolding review_application_success [OF assms]
    using n g
    by (auto simp add: Let_def get_application_def split: option.splits)
qed

text \<open>
  The amended C3 on the store above: approving the approved application again moves its
  \<^verbatim>\<open>reviewed_at\<close> from 10 to 60.
\<close>

theorem review_overwrites_witness:
  "review_application db0 (Some 2) 2 approve 60 =
     (Response 200 (app_f\<lparr>a_reviewed_at := Some 60, a_updated_at := 60\<rparr>),
      db0\<lparr>applications := [app_e, app_f\<lparr>a_reviewed_at := Some 60, a_updated_at := 60\<rparr>]\<rparr>) \<and>
   a_status app_f = ''approved'' \<and> a_reviewed_at app_f = Some 10 \<and>
   payments_for db0 2 = [pay_f]"
proof -
  have h: "get_user db0 2 = Some admin_b" "u_role admin_b = ''admin''"
    "get_application db0 2 = Some app_f" "get_event db0 (a_event_id app_f) = Some event_f"
    "e_created_by_admin_id event_f = 2" "rd_status approve = Some ''approved''"
    "''approved'' = ''approved'' \<or> ''approved'' = ''rejected''"
    by (simp_all add: get_user_def get_application_def get_event_def store_defs body_defs)
  have e: "review_application db0 (Some 2) 2 approve 60 =
     (Response 200 (app_f\<lparr>a_reviewed_at := Some 60, a_updated_at := 60\<rparr>),
      db0\<lparr>applications := [app_e, app_f\<lparr>a_reviewed_at := Some 60, a_updated_at := 60\<rparr>]\<rparr>)"
    "a_status app_f = ''approved''" "a_reviewed_at app_f = Some 10"
    "payments_for db0 2 = [pay_f]"
    by (simp_all add: review_application_def check_admin_def get_user_def get_application_def
      get_event_def payments_for_def Let_def store_defs body_defs)
  from review_overwrites [OF h, of 60] e
  show ?thesis by simp
qed

section \<open>Approval creates one payment\<close>

text \<open>
  A review request that the route does not answer with success leaves the store as it
  was, and the route touches the payments only to add the one row of a first approval.
\<close>

lemma review_application_failure:
  assumes "\<not> (\<exists>admin_id admin a ev st. caller = Some admin_id \<and>
              get_user s admin_id = Some admin \<and> u_role admin = ''admin'' \<and>
              get_application s application_id = Some a \<and>
              get_event s (a_event_id a) = Some ev \<and> e_created_by_admin_id ev = admin_id \<and>
              rd_status data = Some st \<and> (st = ''approved'' \<or> st = ''rejected''))"
  shows "\<exists>code message. review_application s caller application_id data now = (Error code message, s)"
proof (cases "check_admin s caller")
  case False
  then show ?thesis by (simp add: review_application_def)
next
  case True
  then obtain admin_id admin where c: "caller = Some admin_id"
    and u: "get_user s admin_id = Some admin" "u_role admin = ''admin''"
    by (auto simp add: check_admin_def split: option.splits)
  show ?thesis
  proof (cases "get_application s application_id")
    case None
    with True c show ?thesis by (simp add: review_application_def)
  next
    case (Some a)
    note a = this
    show ?thesis
    proof (cases "get_event s (a_event_id a)")
      case None
      with True c a show ?thesis by (simp add: review_application_def)
    next
      case (Some ev)
      note ev = this
      show ?thesis
      proof (cases "e_created_by_admin_id ev = admin_id")
        case False
        with True c a ev show ?thesis by (simp add: review_application_def)
      next
        case True
        note o = this
        show ?thesis
        proof (cases "rd_status data")
          case None
          with \<open>check_admin s caller\<close> c a ev o show ?thesis by (simp add: review_application_def)
        next
          case (Some st)
          with assms c u a ev o have "st \<noteq> ''approved'' \<and> st \<noteq> ''rejected''" by blast
          with Some \<open>check_admin s caller\<close> c a ev o show ?thesis
            by (simp add: review_application_def)
        qed
      qed
    qed
  qed
qed

lemma review_application_payments:
  assumes "review_application s caller application_id data now = (r, s1)"
  shows "(\<not> is_ok r \<and> s1 = s) \<or>
         (is_ok r \<and> payments s1 = payments s \<and>
            (rd_status data = Some ''approved'' \<longrightarrow> payments_for s application_id \<noteq> [])) \<or>
         (is_ok r \<and> rd_status data = Some ''approved'' \<and> payments_for s application_id = [] \<and>
            (\<exists>a ev fee. get_application s application_id = Some a \<and>
               get_event s (a_event_id a) = Some ev \<and> e_vendor_fee ev = Some fee \<and>
               payments s1 = payments s @ [new_payment s a fee now]))"
proof (cases "\<exists>admin_id admin a ev st. caller = Some admin_id \<and>
              get_user s admin_id = Some admin \<and> u_role admin = ''admin'' \<and>
              get_application s application_id = Some a \<and>
              get_event s (a_event_id a) = Some ev \<and> e_created_by_admin_id ev = admin_id \<and>
              rd_status data = Some st \<and> (st = ''approved'' \<or> st = ''rejected'')")
  case False
  from review_application_failure [OF False, of now] assms
  have "\<not> is_ok r \<and> s1 = s" by auto
  then show ?thesis by simp
next
  case True
  then obtain admin_id admin a ev st where c: "caller = Some admin_id"
    and u: "get_user s admin_id = Some admin" "u_role admin = ''admin''"
    and a: "get_application s application_id = Some a"
    and ev: "get_event s (a_event_id a) = Some ev" "e_created_by_admin_id ev = admin_id"
    and st: "rd_status data = Some st" "st = ''approved'' \<or> st = ''rejected''"
    by blast
  note eq = assms [unfolded c review_application_success [OF u a ev st] Let_def]
  show ?thesis
  proof (cases "st = ''approved'' \<and> payments_for s application_id = []")
    case False
    with eq have "is_ok r" "payments s1 = payments s" by auto
    with False st show ?thesis by auto
  next
    case True
    show ?thesis
    proof (cases "e_vendor_fee ev")
      case None
      with True eq have "\<not> is_ok r \<and> s1 = s" by auto
      then show ?thesis by simp
    next
      case (Some fee)
      with True eq have "is_ok r" "payments s1 = payments s @ [new_payment s a fee now]"
        by auto
      with True st a ev Some show ?thesis by simp
    qed
  qed
qed

lemma payments_for_new_payment:
  assumes "get_application s application_id = Some a"
  shows "payments_for (s1\<lparr>payments := payments s @ [new_payment s a fee now]\<rparr>) application_id
         = payments_for s application_id @ [new_payment s a fee now]"
proof -
  from assms have "a_id a = application_id"
    unfolding get_application_def by (auto dest: find_key)
  then show ?thesis by (simp add: payments_for_def new_payment_def)
qed








section \<open>The payment date is set once\<close>

text \<open>
  \<open>update_payment_status\<close> on a payment that is there: an error that leaves the store
  as it was, or the written row.
\<close>

lemma update_payment_status_cases:
  assumes "get_payment s payment_id = Some p"
  shows "(\<exists>code message. update_payment_status s caller payment_id data now = (Error code message, s)) \<or>
         (\<exists>st. pd_status data = Some st \<and>
            update_payment_status s caller payment_id data now =
              (Response 200 (updated_payment p data st now),
               s\<lparr>payments := map (\<lambda>q. if p_id q = payment_id then updated_payment p data st now else q)
                                (payments s)\<rparr>))"
proof (cases "check_admin s caller")
  case False
  then show ?thesis by (simp add: update_payment_status_def)
next
  case True
  note adm = this
  show ?thesis
  proof (cases "get_current_admin_id s caller")
    case None
    with adm assms show ?thesis by (simp add: update_payment_status_def)
  next
    case (Some admin_id)
    note aid = this
    show ?thesis
    proof (cases "payment_owner s p = Some admin_id")
      case False
      with adm assms aid show ?thesis by (simp add: update_payment_status_def)
    next
      case True
      note own = this
      show ?thesis
      proof (cases "pd_status data")
        case None
        with adm assms aid own show ?thesis by (simp add: update_payment_status_def)
      next
        case (Some st)
        note st = this
        show ?thesis
        proof (cases "st \<in> {''pending'', ''completed'', ''failed'', ''refunded''}")
          case False
          with adm assms aid own st show ?thesis by (simp add: update_payment_status_def)
        next
          case True
          note valid = this
          let ?p = "updated_payment p data st now"
          show ?thesis
          proof (cases "p_transaction_id ?p \<noteq> None \<and>
                   (\<exists>q \<in> set (payments s). p_id q \<noteq> payment_id \<and> p_transaction_id q = p_transaction_id ?p)")
            case True
            with adm assms aid own st valid have
              "update_payment_status s caller payment_id data now = (Error 500 ''IntegrityError'', s)"
              unfolding update_payment_status_def updated_payment_def Let_def by simp
            then show ?thesis by simp
          next
            case False
            with adm assms aid own st valid have
              "update_payment_status s caller payment_id data now =
                (Response 200 ?p,
                 s\<lparr>payments := map (\<lambda>q. if p_id q = payment_id then ?p else q) (payments s)\<rparr>)"
              unfolding update_payment_status_def updated_payment_def Let_def by simp
            with st show ?thesis by simp
          qed
        qed
      qed
    qed
  qed
qed

lemma update_payment_status_missing:
  assumes "get_payment s payment_id = None"
  shows "\<exists>code message. update_payment_status s caller payment_id data now = (Error code message, s)"
  using assms by (simp add: update_payment_status_def)

lemma update_payment_status_step:
  assumes "get_payment s payment_id = Some p"
    and "update_payment_status s caller payment_id data now = (r, s1)"
  shows "(\<not> is_ok r \<and> s1 = s) \<or>
         (is_ok r \<and> (\<exists>st. pd_status data = Some st \<and>
            get_payment s1 payment_id = Some (updated_payment p data st now)))"
proof -
  from assms(1) have k: "p_id p = payment_id"
    unfolding get_payment_def by (auto dest: find_key)
  from update_payment_status_cases [OF assms(1), of caller data now]
  show ?thesis
  proof
    assume "\<exists>code message. update_payment_status s caller payment_id data now = (Error code message, s)"
    with assms(2) show ?thesis by auto
  next
    assume "\<exists>st. pd_status data = Some st \<and>
            update_payment_status s caller payment_id data now =
              (Response 200 (updated_payment p data st now),
               s\<lparr>payments := map (\<lambda>q. if p_id q = payment_id then updated_payment p data st now else q)
                                (payments s)\<rparr>)"
    then obtain st where st: "pd_status data = Some st"
      and u: "update_payment_status s caller payment_id data now =
              (Response 200 (updated_payment p data st now),
               s\<lparr>payments := map (\<lambda>q. if p_id q = payment_id then updated_payment p data st now else q)
                                (payments s)\<rparr>)"
      by blast
    have "p_id (updated_payment p data st now) = payment_id"
      using k by (simp add: updated_payment_def)
    with assms(1) have "find (\<lambda>q. p_id q = payment_id)
        (map (\<lambda>q. if p_id q = payment_id then updated_payment p data st now else q) (payments s))
        = Some (updated_payment p data st now)"
      unfolding get_payment_def by (intro find_map_replace) simp_all
    with u assms(2) st show ?thesis by (auto simp add: get_payment_def)
  qed
qed


text \<open>
  Claim C6: take a payment and any sequence of status updates for it, from any callers at
  any times. If the payment has no \<^verbatim>\<open>payment_date\<close> before, its date afterwards is
  the time of the first update of the sequence that succeeded with the status
  \<^verbatim>\<open>completed\<close> (none if there was no such update); later updates, completed or
  not, leave it. A date that is already set is never overwritten.
\<close>

theorem payment_date_set_once:
  assumes "get_payment s payment_id = Some p"
    and "update_calls s payment_id calls = (rs, s')"
  shows "\<exists>p'. get_payment s' payment_id = Some p' \<and>
           p_payment_date p' =
             (case p_payment_date p of
                None \<Rightarrow> first_completed calls rs
              | Some date \<Rightarrow> Some date)"
  using assms
proof (induction calls arbitrary: s p rs)
  case Nil
  then show ?case by (auto split: option.splits)
next
  case (Cons call calls)
  obtain caller data now where call: "call = (caller, data, now)" by (cases call) auto
  obtain r s1 where step: "update_payment_status s caller payment_id data now = (r, s1)"
    by (cases "update_payment_status s caller payment_id data now") auto
  obtain rs1 where rest: "update_calls s1 payment_id calls = (rs1, s')" and rs: "rs = r # rs1"
    using Cons.prems(2) call step by (auto split: prod.splits)
  from update_payment_status_step [OF Cons.prems(1) step]
  show ?case
  proof
    assume f: "\<not> is_ok r \<and> s1 = s"
    with Cons.IH [OF Cons.prems(1)] rest
    obtain p' where "get_payment s' payment_id = Some p'"
      "p_payment_date p' = (case p_payment_date p of None \<Rightarrow> first_completed calls rs1 | Some date \<Rightarrow> Some date)"
      by blast
    with f call rs show ?thesis by (auto split: option.splits)
  next
    assume "is_ok r \<and> (\<exists>st. pd_status data = Some st \<and>
            get_payment s1 payment_id = Some (updated_payment p data st now))"
    then obtain st where ok: "is_ok r" and st: "pd_status data = Some st"
      and g: "get_payment s1 payment_id = Some (updated_payment p data st now)"
      by blast
    from Cons.IH [OF g rest]
    obtain p' where p': "get_payment s' payment_id = Some p'"
      "p_payment_date p' = (case p_payment_date (updated_payment p data st now) of
           None \<Rightarrow> first_completed calls rs1 | Some date \<Rightarrow> Some date)"
      by blast
    have "(case p_payment_date (updated_payment p data st now) of
           None \<Rightarrow> first_completed calls rs1 | Some date \<Rightarrow> Some date)
        = (case p_payment_date p of None \<Rightarrow> first_completed (call # calls) rs | Some date \<Rightarrow> Some date)"
      using ok st call rs by (auto simp add: updated_payment_def split: option.splits)
    with p' show ?thesis by auto
  qed
qed


text \<open>
  C6 on the store above: admin B completes the payment at 40 and again at 60 (admin A is
  refused in between); the payment date is 40.
\<close>

theorem payment_date_set_once_witness:
  "p_payment_date pay_f = None \<and>
   map is_ok (fst (update_calls db0 1 [(Some 2, complete, 40), (Some 1, complete, 50), (Some 2, complete, 60)]))
     = [True, False, True] \<and>
   map_option p_payment_date
     (get_payment (snd (update_calls db0 1 [(Some 2, complete, 40), (Some 1, complete, 50), (Some 2, complete, 60)])) 1)
     = Some (Some 40)"
proof -
  let ?calls = "[(Some 2, complete, 40), (Some 1, complete, 50), (Some 2, complete, 60)]"
  have h: "get_payment db0 1 = Some pay_f"
    "update_calls db0 1 ?calls = (fst (update_calls db0 1 ?calls), snd (update_calls db0 1 ?calls))"
    by (simp_all add: get_payment_def store_defs)
  have e: "p_payment_date pay_f = None"
    "map is_ok (fst (update_calls db0 1 ?calls)) = [True, False, True]"
    "map_option p_payment_date (get_payment (snd (update_calls db0 1 ?calls)) 1) = Some (Some 40)"
    by (simp_all add: update_payment_status_def check_admin_def get_current_admin_id_def
        get_user_def get_payment_def payment_owner_def get_application_def get_event_def merge_def
        Let_def store_defs body_defs)
  from payment_date_set_once [OF h] e show ?thesis by simp
qed

section \<open>The amount of a payment is fixed\<close>

lemma amounts_kept_refl: "amounts_kept s s"
  by (simp add: amounts_kept_def)

lemma amounts_kept_trans: "amounts_kept s s1 \<Longrightarrow> amounts_kept s1 s2 \<Longrightarrow> amounts_kept s s2"
  unfolding amounts_kept_def by (metis)

lemma amounts_kept_same: "payments s' = payments s \<Longrightarrow> amounts_kept s s'"
  by (simp add: amounts_kept_def get_payment_def)

lemma find_append_Some: "find P xs = Some x \<Longrightarrow> find P (xs @ ys) = Some x"
  by (induction xs) (auto split: if_splits)

lemma amounts_kept_append: "payments s' = payments s @ ps \<Longrightarrow> amounts_kept s s'"
  by (simp add: amounts_kept_def get_payment_def find_append_Some)

lemma toggle_vendor_status_payments:
  "payments (snd (toggle_vendor_status s caller vendor_id now)) = payments s"
  by (simp add: toggle_vendor_status_def Let_def split: option.splits)

lemma review_application_amounts:
  "amounts_kept s (snd (review_application s caller application_id data now))"
proof -
  obtain r s1 where step: "review_application s caller application_id data now = (r, s1)"
    by (cases "review_application s caller application_id data now") auto
  from review_application_payments [OF step]
  have "payments s1 = payments s \<or> (\<exists>ps. payments s1 = payments s @ ps)" by auto
  then have "amounts_kept s s1"
    by (auto intro: amounts_kept_same amounts_kept_append)
  with step show ?thesis by simp
qed

lemma create_event_payments:
  "payments (snd (create_event f s caller data now)) = payments s"
  by (simp add: create_event_def Let_def split: option.splits)

lemma update_event_payments:
  "payments (snd (update_event f s caller event_id data now)) = payments s"
  by (simp add: update_event_def Let_def split: option.splits)

lemma delete_event_payments:
  "payments (snd (delete_event s caller event_id)) = payments s"
proof -
  have "filter (\<lambda>p. p_application_id p \<notin> a_id ` set []) (payments s) = payments s" by simp
  then show ?thesis
    by (simp add: delete_event_def Let_def split: option.splits)
qed

lemma updated_payment_frame:
  "p_id (updated_payment p data st now) = p_id p \<and>
   p_application_id (updated_payment p data st now) = p_application_id p \<and>
   p_vendor_id (updated_payment p data st now) = p_vendor_id p \<and>
   p_amount (updated_payment p data st now) = p_amount p \<and>
   p_currency (updated_payment p data st now) = p_currency p \<and>
   p_pay_to (updated_payment p data st now) = p_pay_to p \<and>
   p_created_at (updated_payment p data st now) = p_created_at p"
  by (simp add: updated_payment_def)

lemma update_payment_status_amounts:
  "amounts_kept s (snd (update_payment_status s caller payment_id data now))"
proof (cases "get_payment s payment_id")
  case None
  from update_payment_status_missing [OF None, of caller data now]
  show ?thesis by (auto simp add: amounts_kept_refl)
next
  case (Some p)
  from Some have k: "p_id p = payment_id"
    unfolding get_payment_def by (auto dest: find_key)
  from update_payment_status_cases [OF Some, of caller data now]
  show ?thesis
  proof
    assume "\<exists>code message. update_payment_status s caller payment_id data now = (Error code message, s)"
    then show ?thesis by (auto simp add: amounts_kept_refl)
  next
    assume "\<exists>st. pd_status data = Some st \<and>
            update_payment_status s caller payment_id data now =
              (Response 200 (updated_payment p data st now),
               s\<lparr>payments := map (\<lambda>q. if p_id q = payment_id then updated_payment p data st now else q)
                                (payments s)\<rparr>)"
    then obtain st where u: "update_payment_status s caller payment_id data now =
              (Response 200 (updated_payment p data st now),
               s\<lparr>payments := map (\<lambda>q. if p_id q = payment_id then updated_payment p data st now else q)
                                (payments s)\<rparr>)"
      by blast
    let ?p = "updated_payment p data st now"
    have kp: "p_id ?p = payment_id" using k by (simp add: updated_payment_def)
    have "\<exists>q'. find (\<lambda>x. p_id x = i) (map (\<lambda>q. if p_id q = payment_id then ?p else q) (payments s))
             = Some q' \<and> p_amount q' = p_amount q"
      if q: "find (\<lambda>x. p_id x = i) (payments s) = Some q" for i q
    proof (cases "i = payment_id")
      case True
      with q Some have "q = p" by (simp add: get_payment_def)
      moreover from q True kp
      have "find (\<lambda>x. p_id x = i) (map (\<lambda>q. if p_id q = payment_id then ?p else q) (payments s)) = Some ?p"
        by (simp add: find_map_replace)
      ultimately show ?thesis by (simp add: updated_payment_def)
    next
      case False
      with kp have "find (\<lambda>x. p_id x = i) (map (\<lambda>q. if p_id q = payment_id then ?p else q) (payments s))
          = find (\<lambda>x. p_id x = i) (payments s)"
        by (intro find_map_other) simp_all
      with q show ?thesis by simp
    qed
    then show ?thesis unfolding u by (simp add: amounts_kept_def get_payment_def)
  qed
qed

lemma admin_step_amounts: "amounts_kept s (admin_step f s request)"
proof -
  obtain caller now req where r: "request = (caller, now, req)" by (cases request) auto
  show ?thesis unfolding r
    by (cases req)
      (simp_all add: amounts_kept_same toggle_vendor_status_payments create_event_payments
        update_event_payments delete_event_payments review_application_amounts
        update_payment_status_amounts)
qed

lemma admin_run_amounts: "amounts_kept s (admin_run f s requests)"
  unfolding admin_run_def
proof (induction requests arbitrary: s)
  case Nil
  show ?case by (simp add: amounts_kept_refl)
next
  case (Cons request requests)
  from admin_step_amounts [of s f request] Cons.IH [of "admin_step f s request"]
  show ?case by (auto intro: amounts_kept_trans)
qed


text \<open>
  Claim C7: a payment keeps its amount through any run of the admin requests that write
  (toggling a vendor, reviewing, creating, updating and deleting events, updating
  payments), whoever sends them and whether they succeed or not. \<open>update_event\<close>, the
  fee included, leaves the payments table as it is, and \<open>update_payment_status\<close>
  leaves the id, the application, the vendor, the amount, the currency, the payee and the
  creation time of the payment it is called on.
\<close>

theorem payment_amount_fixed:
  assumes "get_payment s payment_id = Some p"
  shows "(\<exists>p'. get_payment (admin_run f s requests) payment_id = Some p' \<and> p_amount p' = p_amount p) \<and>
         payments (snd (update_event f s caller event_id edata now)) = payments s \<and>
         (\<exists>p'. get_payment (snd (update_payment_status s caller payment_id pdata now)) payment_id = Some p' \<and>
            p_id p' = p_id p \<and> p_application_id p' = p_application_id p \<and>
            p_vendor_id p' = p_vendor_id p \<and> p_amount p' = p_amount p \<and>
            p_currency p' = p_currency p \<and> p_pay_to p' = p_pay_to p \<and>
            p_created_at p' = p_created_at p)"
proof (intro conjI)
  from admin_run_amounts [of s f requests] assms
  show "\<exists>p'. get_payment (admin_run f s requests) payment_id = Some p' \<and> p_amount p' = p_amount p"
    by (simp add: amounts_kept_def)
  show "payments (snd (update_event f s caller event_id edata now)) = payments s"
    by (rule update_event_payments)
  obtain r s1 where step: "update_payment_status s caller payment_id pdata now = (r, s1)"
    by (cases "update_payment_status s caller payment_id pdata now") auto
  from update_payment_status_step [OF assms step] assms step updated_payment_frame
  show "\<exists>p'. get_payment (snd (update_payment_status s caller payment_id pdata now)) payment_id = Some p' \<and>
            p_id p' = p_id p \<and> p_application_id p' = p_application_id p \<and>
            p_vendor_id p' = p_vendor_id p \<and> p_amount p' = p_amount p \<and>
            p_currency p' = p_currency p \<and> p_pay_to p' = p_pay_to p \<and>
            p_created_at p' = p_created_at p"
    by auto
qed

text \<open>
  C7 on the store above: after the fee of event F went from 750 to 900 and the payment
  was completed, its amount is still 750.
\<close>

theorem payment_amount_fixed_witness:
  "map_option e_vendor_fee (get_event (admin_run (\<lambda>text. None) db0 fee_then_complete) 2) = Some (Some 900) \<and>
   map_option p_status (get_payment (admin_run (\<lambda>text. None) db0 fee_then_complete) 1) = Some ''completed'' \<and>
   map_option p_amount (get_payment (admin_run (\<lambda>text. None) db0 fee_then_complete) 1) = Some 750"
proof -
  have h: "get_payment db0 1 = Some pay_f"
    by (simp add: get_payment_def store_defs)
  have s1: "admin_step (\<lambda>text. None) db0 (Some 2, 40, UpdateEvent 2 raise_fee) =
      db0\<lparr>events := [event_e, event_f\<lparr>e_vendor_fee := Some 900, e_updated_at := 40\<rparr>]\<rparr>"
    by (simp add: update_event_def apply_event_data_def check_admin_def get_current_admin_id_def
        get_user_def get_event_def get_or_def merge_def raise_fee_def no_event_data_def
        allowed_currencies_def strip_def is_space_def upper_def upper_char_def Let_def store_defs)
  have e: "map_option e_vendor_fee (get_event (admin_run (\<lambda>text. None) db0 fee_then_complete) 2) = Some (Some 900)"
    "map_option p_status (get_payment (admin_run (\<lambda>text. None) db0 fee_then_complete) 1) = Some ''completed''"
    "map_option p_amount (get_payment (admin_run (\<lambda>text. None) db0 fee_then_complete) 1) = Some 750"
    unfolding admin_run_def fee_then_complete_def foldl.simps s1
    by (simp_all add: update_payment_status_def check_admin_def get_current_admin_id_def
        get_user_def get_payment_def payment_owner_def get_application_def get_event_def merge_def
        Let_def store_defs body_defs)
  from payment_amount_fixed [OF h, of "\<lambda>text. None" fee_then_complete] e show ?thesis by simp
qed

section \<open>The default currency is one of the currency options\<close>

lemma get_current_admin_id_check:
  "get_current_admin_id s caller = Some admin_id \<Longrightarrow> check_admin s caller"
  by (auto simp add: get_current_admin_id_def check_admin_def split: option.splits if_splits)

lemma create_event_cases:
  assumes "create_event f s caller data now = (r, s')"
  shows "(\<exists>code message. r = Error code message \<and> s' = s) \<or>
         (\<exists>ev. r = Response 201 ev \<and> s' = s\<lparr>events := events s @ [ev]\<rparr> \<and>
            currency_ok ev \<and> default_upper ev)"
proof (cases "get_current_admin_id s caller")
  case None
  with assms show ?thesis by (auto simp add: create_event_def split: if_splits)
next
  case (Some admin_id)
  note aid = this
  then have adm: "check_admin s caller" by (rule get_current_admin_id_check)
  show ?thesis
  proof (cases "ed_name data")
    case None
    with assms adm aid show ?thesis by (auto simp add: create_event_def)
  next
    case (Some name)
    note name = this
    show ?thesis
    proof (cases "ed_event_date data")
      case None
      with assms adm aid name show ?thesis by (auto simp add: create_event_def)
    next
      case (Some date_text)
      note dt = this
      show ?thesis
      proof (cases "f date_text")
        case None
        with assms adm aid name dt show ?thesis by (auto simp add: create_event_def)
      next
        case (Some event_date)
        with assms adm aid name dt show ?thesis
          by (auto simp add: create_event_def Let_def currency_ok_def default_upper_def upper_idem
              split: if_splits)
      qed
    qed
  qed
qed

lemma apply_event_data_upper:
  "default_upper ev \<Longrightarrow> default_upper (apply_event_data ev data event_date)"
  by (simp add: default_upper_def apply_event_data_def upper_idem split: option.splits)

lemma update_event_missing:
  "get_event s event_id = None \<Longrightarrow>
   \<exists>code message. update_event f s caller event_id data now = (Error code message, s)"
  by (simp add: update_event_def)

lemma update_event_cases:
  assumes "get_event s event_id = Some old" and "default_upper old"
    and "update_event f s caller event_id data now = (r, s')"
  shows "(\<exists>code message. r = Error code message \<and> s' = s) \<or>
         (\<exists>ev. r = Response 200 ev \<and>
            s' = s\<lparr>events := map (\<lambda>e. if e_id e = event_id then ev else e) (events s)\<rparr> \<and>
            e_id ev = event_id \<and> currency_ok ev \<and> default_upper ev)"
proof (cases "check_admin s caller \<and> get_current_admin_id s caller = Some (e_created_by_admin_id old)")
  case False
  with assms(1,3) show ?thesis
    by (auto simp add: update_event_def split: option.splits if_splits)
next
  case True
  note adm = this
  from assms(1) have k: "e_id old = event_id"
    unfolding get_event_def by (auto dest: find_key)
  show ?thesis
  proof (cases "case ed_event_date data of None \<Rightarrow> Some (e_event_date old) | Some t \<Rightarrow> f t")
    case None
    with assms(1,3) adm show ?thesis by (auto simp add: update_event_def)
  next
    case (Some event_date)
    let ?ev = "apply_event_data old data event_date"
    have u: "default_upper ?ev" using assms(2) by (rule apply_event_data_upper)
    have i: "e_id ?ev = event_id" using k by (simp add: apply_event_data_def)
    show ?thesis
    proof (cases "allowed_currencies (e_currency_options ?ev) = [] \<or>
                  upper (e_default_currency ?ev) \<notin> set (allowed_currencies (e_currency_options ?ev))")
      case True
      with assms(1,3) adm Some show ?thesis by (auto simp add: update_event_def Let_def split: if_splits)
    next
      case False
      with assms(1,3) adm Some have
        "r = Response 200 (?ev\<lparr>e_updated_at := now\<rparr>)"
        "s' = s\<lparr>events := map (\<lambda>e. if e_id e = event_id then ?ev\<lparr>e_updated_at := now\<rparr> else e) (events s)\<rparr>"
        by (auto simp add: update_event_def Let_def split: if_splits)
      moreover from False u have "currency_ok (?ev\<lparr>e_updated_at := now\<rparr>)"
        "default_upper (?ev\<lparr>e_updated_at := now\<rparr>)"
        by (simp_all add: currency_ok_def default_upper_def)
      moreover from i have "e_id (?ev\<lparr>e_updated_at := now\<rparr>) = event_id" by simp
      ultimately show ?thesis by blast
    qed
  qed
qed

lemma toggle_vendor_status_events:
  "events (snd (toggle_vendor_status s caller vendor_id now)) = events s"
  by (simp add: toggle_vendor_status_def Let_def split: option.splits)

lemma review_application_events:
  "events (snd (review_application s caller application_id data now)) = events s"
  by (simp add: review_application_def Let_def split: option.splits)

lemma update_payment_status_events:
  "events (snd (update_payment_status s caller payment_id data now)) = events s"
  by (simp add: update_payment_status_def Let_def split: option.splits)

lemma delete_event_events:
  "set (events (snd (delete_event s caller event_id))) \<subseteq> set (events s)"
  by (auto simp add: delete_event_def Let_def split: option.splits)

lemma create_event_inv:
  assumes "\<forall>e\<in>set (events s). event_inv e"
  shows "\<forall>e\<in>set (events (snd (create_event f s caller data now))). event_inv e"
proof -
  obtain r s' where c: "create_event f s caller data now = (r, s')"
    by (cases "create_event f s caller data now") auto
  from create_event_cases [OF c] assms show ?thesis
    unfolding c by (auto simp add: event_inv_def)
qed

lemma update_event_inv:
  assumes "\<forall>e\<in>set (events s). event_inv e"
  shows "\<forall>e\<in>set (events (snd (update_event f s caller event_id data now))). event_inv e"
proof (cases "get_event s event_id")
  case None
  from update_event_missing [OF None, of f caller data now] assms show ?thesis by auto
next
  case (Some old)
  then have "old \<in> set (events s)" unfolding get_event_def by (auto dest: find_key)
  with assms have u: "default_upper old" by (simp add: event_inv_def)
  obtain r s' where c: "update_event f s caller event_id data now = (r, s')"
    by (cases "update_event f s caller event_id data now") auto
  from update_event_cases [OF Some u c] assms show ?thesis
    unfolding c by (auto simp add: event_inv_def)
qed

lemma admin_step_inv:
  assumes "\<forall>e\<in>set (events s). event_inv e"
  shows "\<forall>e\<in>set (events (admin_step f s request)). event_inv e"
proof -
  obtain caller now req where r: "request = (caller, now, req)" by (cases request) auto
  show ?thesis
  proof (cases req)
    case (DeleteEvent event_id)
    with assms delete_event_events [of s caller event_id] r show ?thesis by auto
  next
    case (CreateEvent data)
    with create_event_inv [OF assms] r show ?thesis by simp
  next
    case (UpdateEvent event_id data)
    with update_event_inv [OF assms] r show ?thesis by simp
  qed (use assms r in \<open>simp_all add: toggle_vendor_status_events review_application_events
       update_payment_status_events\<close>)
qed

lemma admin_run_inv:
  "\<forall>e\<in>set (events s). event_inv e \<Longrightarrow> \<forall>e\<in>set (events (admin_run f s requests)). event_inv e"
  unfolding admin_run_def
proof (induction requests arbitrary: s)
  case Nil
  then show ?case by simp
next
  case (Cons request requests)
  from Cons.IH [OF admin_step_inv [OF Cons.prems]] show ?case by simp
qed


text \<open>
  Claim C5: in a store whose events have their default currency, stored in upper case,
  among their parsed currency options, every event still has after any run of admin
  requests. An event that \<open>create_event\<close> stores and an event that
  \<open>update_event\<close> stores, whatever fields the update names, has its default currency
  among its options. A request that either route answers with an error leaves the store
  as it was, and a request from the owner whose merged fields would break the membership
  is answered with 400.
\<close>

theorem currency_invariant:
  assumes "\<forall>e\<in>set (events s). currency_ok e \<and> default_upper e"
  shows "(\<forall>e\<in>set (events (admin_run f s requests)). currency_ok e) \<and>
         (\<forall>ev s'. create_event f s caller data now = (Response 201 ev, s') \<longrightarrow>
            currency_ok ev \<and> events s' = events s @ [ev]) \<and>
         (\<forall>ev s'. update_event f s caller event_id data now = (Response 200 ev, s') \<longrightarrow>
            currency_ok ev \<and> get_event s' event_id = Some ev) \<and>
         (\<forall>code message s'.
            create_event f s caller data now = (Error code message, s') \<or>
            update_event f s caller event_id data now = (Error code message, s') \<longrightarrow> s' = s) \<and>
         (\<forall>admin_id name date_text event_date.
            get_current_admin_id s caller = Some admin_id \<and> ed_name data = Some name \<and>
            ed_event_date data = Some date_text \<and> f date_text = Some event_date \<and>
            upper (get_or (ed_default_currency data) ''USD'')
              \<notin> set (allowed_currencies
                      (normalize_currency_options (get_or (ed_currency_options data) OptNone)
                         (get_or (ed_default_currency data) ''USD''))) \<longrightarrow>
            (\<exists>message. create_event f s caller data now = (Error 400 message, s))) \<and>
         (\<forall>old event_date.
            get_event s event_id = Some old \<and>
            get_current_admin_id s caller = Some (e_created_by_admin_id old) \<and>
            (case ed_event_date data of None \<Rightarrow> Some (e_event_date old)
             | Some date_text \<Rightarrow> f date_text) = Some event_date \<and>
            \<not> currency_ok (apply_event_data old data event_date) \<longrightarrow>
            (\<exists>message. update_event f s caller event_id data now = (Error 400 message, s)))"
proof (intro conjI allI impI)
  from assms have inv: "\<forall>e\<in>set (events s). event_inv e" by (simp add: event_inv_def)
  from admin_run_inv [OF inv, of f requests]
  show "\<forall>e\<in>set (events (admin_run f s requests)). currency_ok e"
    by (simp add: event_inv_def)
next
  fix ev s'
  assume c: "create_event f s caller data now = (Response 201 ev, s')"
  from create_event_cases [OF c] show "currency_ok ev" by auto
  from create_event_cases [OF c] show "events s' = events s @ [ev]" by auto
next
  fix ev s'
  assume c: "update_event f s caller event_id data now = (Response 200 ev, s')"
  show "currency_ok ev" and "get_event s' event_id = Some ev"
  proof -
    obtain old where o: "get_event s event_id = Some old"
      using c update_event_missing [of s event_id f caller data now]
      by (cases "get_event s event_id") auto
    then have "old \<in> set (events s)" unfolding get_event_def by (auto dest: find_key)
    with assms have u: "default_upper old" by simp
    from update_event_cases [OF o u c]
    have 1: "currency_ok ev" "e_id ev = event_id"
      "s' = s\<lparr>events := map (\<lambda>e. if e_id e = event_id then ev else e) (events s)\<rparr>"
      by auto
    from o 1(2) have "find (\<lambda>e. e_id e = event_id)
        (map (\<lambda>e. if e_id e = event_id then ev else e) (events s)) = Some ev"
      unfolding get_event_def by (intro find_map_replace) simp_all
    with 1 show "currency_ok ev" and "get_event s' event_id = Some ev"
      by (simp_all add: get_event_def)
  qed
next
  fix code message s'
  assume "create_event f s caller data now = (Error code message, s') \<or>
          update_event f s caller event_id data now = (Error code message, s')"
  then show "s' = s"
  proof
    assume c: "create_event f s caller data now = (Error code message, s')"
    from create_event_cases [OF c] show ?thesis by auto
  next
    assume c: "update_event f s caller event_id data now = (Error code message, s')"
    show ?thesis
    proof (cases "get_event s event_id")
      case None
      from update_event_missing [OF None, of f caller data now] c show ?thesis by auto
    next
      case (Some old)
      then have "old \<in> set (events s)" unfolding get_event_def by (auto dest: find_key)
      with assms have u: "default_upper old" by simp
      from update_event_cases [OF Some u c] show ?thesis by auto
    qed
  qed
next
  fix admin_id name date_text event_date
  assume h: "get_current_admin_id s caller = Some admin_id \<and> ed_name data = Some name \<and>
            ed_event_date data = Some date_text \<and> f date_text = Some event_date \<and>
            upper (get_or (ed_default_currency data) ''USD'')
              \<notin> set (allowed_currencies
                      (normalize_currency_options (get_or (ed_currency_options data) OptNone)
                         (get_or (ed_default_currency data) ''USD'')))"
  then have "check_admin s caller" by (auto intro: get_current_admin_id_check)
  with h show "\<exists>message. create_event f s caller data now = (Error 400 message, s)"
    by (simp add: create_event_def Let_def)
next
  fix old event_date
  assume h: "get_event s event_id = Some old \<and>
            get_current_admin_id s caller = Some (e_created_by_admin_id old) \<and>
            (case ed_event_date data of None \<Rightarrow> Some (e_event_date old)
             | Some date_text \<Rightarrow> f date_text) = Some event_date \<and>
            \<not> currency_ok (apply_event_data old data event_date)"
  then have adm: "check_admin s caller" by (auto intro: get_current_admin_id_check)
  from h have "old \<in> set (events s)" unfolding get_event_def by (auto dest: find_key)
  with assms have "default_upper old" by simp
  then have "default_upper (apply_event_data old data event_date)"
    by (rule apply_event_data_upper)
  with h have "upper (e_default_currency (apply_event_data old data event_date))
      \<notin> set (allowed_currencies (e_currency_options (apply_event_data old data event_date)))"
    by (simp add: currency_ok_def default_upper_def)
  with h adm show "\<exists>message. update_event f s caller event_id data now = (Error 400 message, s)"
    by (simp add: update_event_def Let_def)
qed

text \<open>
  C5 on the store above: the new event gets the options \<^verbatim>\<open>EUR,USD\<close> with the
  default \<^verbatim>\<open>EUR\<close>, then the default \<^verbatim>\<open>USD\<close>; the move to \<^verbatim>\<open>KES\<close> is
  refused and changes nothing.
\<close>

theorem currency_invariant_witness:
  "map (\<lambda>e. (e_default_currency e, e_currency_options e)) (events db0)
     = [(''USD'', ''USD,EUR''), (''USD'', ''USD'')] \<and>
   map (\<lambda>e. (e_default_currency e, e_currency_options e))
     (events (admin_run fixed_date db0 (take 1 currency_run)))
     = [(''USD'', ''USD,EUR''), (''USD'', ''USD''), (''EUR'', ''EUR,USD'')] \<and>
   map (\<lambda>e. (e_default_currency e, e_currency_options e))
     (events (admin_run fixed_date db0 currency_run))
     = [(''USD'', ''USD,EUR''), (''USD'', ''USD''), (''USD'', ''EUR,USD'')]"
proof -
  have h: "\<forall>e\<in>set (events db0). currency_ok e \<and> default_upper e"
    by code_simp
  have e: "map (\<lambda>e. (e_default_currency e, e_currency_options e)) (events db0)
     = [(''USD'', ''USD,EUR''), (''USD'', ''USD'')]"
   "map (\<lambda>e. (e_default_currency e, e_currency_options e))
     (events (admin_run fixed_date db0 (take 1 currency_run)))
     = [(''USD'', ''USD,EUR''), (''USD'', ''USD''), (''EUR'', ''EUR,USD'')]"
   "map (\<lambda>e. (e_default_currency e, e_currency_options e))
     (events (admin_run fixed_date db0 currency_run))
     = [(''USD'', ''USD,EUR''), (''USD'', ''USD''), (''USD'', ''EUR,USD'')]"
    by code_simp+
  from currency_invariant [OF h, of fixed_date currency_run] e show ?thesis by simp
qed

section \<open>Isolation between admins\<close>

text \<open>
  The listings of applications, payments and events hold rows of the caller's own events
  only, and the routes that write refuse an admin who does not own the event.
\<close>

lemma get_all_applications_owned:
  assumes "get_all_applications s caller status event_id = Response code apps" and "a \<in> set apps"
  shows "\<exists>admin_id. get_current_admin_id s caller = Some admin_id \<and> owned_by s admin_id a"
  using assms
  by (auto simp add: get_all_applications_def Let_def split: if_splits option.splits)

lemma get_all_payments_owned:
  assumes "get_all_payments s caller = Response code ps" and "p \<in> set ps"
  shows "\<exists>admin_id. get_current_admin_id s caller = Some admin_id \<and> payment_owner s p = Some admin_id"
  using assms
  by (auto simp add: get_all_payments_def split: if_splits option.splits)

lemma get_all_events_owned:
  assumes "get_all_events s caller = Response code rows" and "(e, n, m) \<in> set rows"
  shows "get_current_admin_id s caller = Some (e_created_by_admin_id e)"
  using assms
  by (auto simp add: get_all_events_def split: if_splits option.splits)

lemma review_application_foreign:
  assumes "get_application s application_id = Some a"
    and "\<not> owned_by s admin_id a"
  shows "\<exists>message.
           review_application s (Some admin_id) application_id data now = (Error 403 message, s)"
  using assms
  by (auto simp add: review_application_def owned_by_def split: option.splits)

lemma update_payment_status_foreign:
  assumes "get_payment s payment_id = Some p"
    and "payment_owner s p \<noteq> get_current_admin_id s caller"
  shows "\<exists>message. update_payment_status s caller payment_id data now = (Error 403 message, s)"
  using assms
  by (auto simp add: update_payment_status_def split: option.splits)

lemma update_event_foreign:
  assumes "get_event s event_id = Some ev"
    and "get_current_admin_id s caller \<noteq> Some (e_created_by_admin_id ev)"
  shows "\<exists>message. update_event f s caller event_id data now = (Error 403 message, s)"
    and "\<exists>message. delete_event s caller event_id = (Error 403 message, s)"
  using assms
  by (auto simp add: update_event_def delete_event_def split: option.splits)


text \<open>
  Claim C1 asks the same of every view an admin has. \<open>get_vendor_details\<close> selects
  the applications and payments of a vendor by the vendor's id alone: on the store above
  it shows admin A the application of vendor V to event F and its payment, both of which
  belong to admin B.
\<close>

theorem get_vendor_details_cross_admin:
  "get_vendor_details db0 (Some 1) 3 = Response 200 (vendor_v, [app_e, app_f], [pay_f]) \<and>
   get_current_admin_id db0 (Some 1) = Some 1 \<and>
   owned_by db0 2 app_f \<and> \<not> owned_by db0 1 app_f \<and> payment_owner db0 pay_f = Some 2"
  by (simp add: get_vendor_details_def check_admin_def get_current_admin_id_def get_user_def
      owned_by_def payment_owner_def get_application_def get_event_def store_defs)

end
